theory Spec2Isabelle
  imports Complex_Main
begin

section \<open>Python strings\<close>

text \<open>
  Strings are byte lists. Case conversion is the ASCII part of \<^verbatim>\<open>str.lower\<close> and
  \<^verbatim>\<open>str.upper\<close>; every other byte is left as it is.
\<close>

definition lower_char :: "char \<Rightarrow> char" where
  "lower_char c =
     (case map_of (zip ''ABCDEFGHIJKLMNOPQRSTUVWXYZ'' ''abcdefghijklmnopqrstuvwxyz'') c of
        Some l \<Rightarrow> l
      | None \<Rightarrow> c)"

definition upper_char :: "char \<Rightarrow> char" where
  "upper_char c =
     (case map_of (zip ''abcdefghijklmnopqrstuvwxyz'' ''ABCDEFGHIJKLMNOPQRSTUVWXYZ'') c of
        Some u \<Rightarrow> u
      | None \<Rightarrow> c)"

definition lower :: "string \<Rightarrow> string" where
  "lower s = map lower_char s"

definition upper :: "string \<Rightarrow> string" where
  "upper s = map upper_char s"

definition lstrip :: "char \<Rightarrow> string \<Rightarrow> string" where
  "lstrip c s = dropWhile (\<lambda>x. x = c) s"

definition rstrip :: "char \<Rightarrow> string \<Rightarrow> string" where
  "rstrip c s = rev (dropWhile (\<lambda>x. x = c) (rev s))"

definition startswith :: "string \<Rightarrow> string \<Rightarrow> bool" where
  "startswith s p = (take (length p) s = p)"

text \<open>\<^verbatim>\<open>s.rfind(c)\<close> for a one-character \<^verbatim>\<open>c\<close>: the last index of \<^verbatim>\<open>c\<close>, or -1.\<close>

fun rfind :: "char \<Rightarrow> string \<Rightarrow> int" where
  "rfind c [] = - 1"
| "rfind c (x # xs) =
     (let r = rfind c xs in if 0 \<le> r then r + 1 else if x = c then 0 else - 1)"

text \<open>
  \<^verbatim>\<open>s.replace(old, new)\<close>: every non-overlapping occurrence of \<^verbatim>\<open>old\<close>, from the
  left. The counter is the number of characters of a match still to be skipped.
\<close>

fun replace_from :: "string \<Rightarrow> string \<Rightarrow> nat \<Rightarrow> string \<Rightarrow> string" where
  "replace_from old new k [] = []"
| "replace_from old new (Suc k) (c # cs) = replace_from old new k cs"
| "replace_from old new 0 (c # cs) =
     (if take (length old) (c # cs) = old
      then new @ replace_from old new (length old - 1) cs
      else c # replace_from old new 0 cs)"

definition replace :: "string \<Rightarrow> string \<Rightarrow> string \<Rightarrow> string" where
  "replace s old new =
     (if old = [] then new @ concat (map (\<lambda>c. c # new) s) else replace_from old new 0 s)"

text \<open>Decimal rendering of integers, as an f-string does it.\<close>

definition digit_char :: "nat \<Rightarrow> char" where
  "digit_char d = ''0123456789'' ! d"

function str_nat :: "nat \<Rightarrow> string" where
  "str_nat n = (if n < 10 then [digit_char n] else str_nat (n div 10) @ [digit_char (n mod 10)])"
  by pat_completeness auto
termination
  by (relation "measure id") auto

declare str_nat.simps [simp del]

definition str_int :: "int \<Rightarrow> string" where
  "str_int i = (if i < 0 then CHR ''-'' # str_nat (nat (- i)) else str_nat (nat i))"

text \<open>The non-ASCII signs of the messages, as their UTF-8 bytes.\<close>

definition check_mark :: string where
  "check_mark = [CHR 0xE2, CHR 0x9C, CHR 0x85]"

definition cross_mark :: string where
  "cross_mark = [CHR 0xE2, CHR 0x9D, CHR 0x8C]"

definition warning_sign :: string where
  "warning_sign = [CHR 0xE2, CHR 0x9A, CHR 0xA0, CHR 0xEF, CHR 0xB8, CHR 0x8F]"

definition o_acute :: string where
  "o_acute = [CHR 0xC3, CHR 0xB3]"

section \<open>os.path on a POSIX system\<close>

definition basename :: "string \<Rightarrow> string" where
  "basename p = drop (nat (rfind CHR ''/'' p + 1)) p"

definition dirname :: "string \<Rightarrow> string" where
  "dirname p =
     (let head = take (nat (rfind CHR ''/'' p + 1)) p
      in if head \<noteq> [] \<and> head \<noteq> replicate (length head) CHR ''/''
         then rstrip CHR ''/'' head else head)"

definition splitext :: "string \<Rightarrow> string \<times> string" where
  "splitext p =
     (let sepIndex = rfind CHR ''/'' p; dotIndex = rfind CHR ''.'' p
      in if sepIndex < dotIndex \<and>
            list_ex (\<lambda>c. c \<noteq> CHR ''.'')
              (take (nat (dotIndex - (sepIndex + 1))) (drop (nat (sepIndex + 1)) p))
         then (take (nat dotIndex) p, drop (nat dotIndex) p)
         else (p, []))"

definition join :: "string \<Rightarrow> string \<Rightarrow> string" where
  "join a b =
     (if startswith b ''/'' then b
      else if a = [] then a @ b
      else if last a = CHR ''/'' then a @ b
      else a @ ''/'' @ b)"

section \<open>Python values and result dictionaries\<close>

datatype pyval =
    PBool bool
  | PInt int
  | PFloat real
  | PStr string
  | PTuple "pyval list"
  | PDict "(string \<times> pyval) list"

type_synonym dict = "(string \<times> pyval) list"

definition dict_get :: "dict \<Rightarrow> string \<Rightarrow> pyval \<Rightarrow> pyval" where
  "dict_get d k dflt = (case map_of d k of Some v \<Rightarrow> v | None \<Rightarrow> dflt)"

section \<open>Images\<close>

text \<open>
  An image is its colour mode, its size (width, height) and its pixel data. The pixel
  data is kept as the sequence of library calls that produced it.
\<close>

datatype pix =
    Decoded string
  | Solid "int \<times> int \<times> int"
  | Converted string pix
  | Quantized pix
  | LastBand pix
  | Pasted pix pix "pix option"
  | Resampled "int \<times> int" pix

record image =
  mode :: string
  imsize :: "int \<times> int"
  pixels :: pix

section \<open>The file system\<close>

text \<open>
  A file is the format tag of the encoder that wrote it, its length in bytes, and the
  image that was handed to that encoder. The file system maps the paths that exist to
  their files.
\<close>

datatype diskfile = File (ffmt: string) (fsize: nat) (fsource: image)

type_synonym fs = "string \<rightharpoonup> diskfile"

definition path_exists :: "fs \<Rightarrow> string \<Rightarrow> bool" where
  "path_exists fs p = (fs p \<noteq> None)"

definition getsize :: "fs \<Rightarrow> string \<Rightarrow> string + nat" where
  "getsize fs p =
     (case fs p of
        None \<Rightarrow> Inl (''No such file or directory: '' @ p)
      | Some f \<Rightarrow> Inr (fsize f))"

section \<open>generate_unique_filename\<close>

definition copy_path :: "string \<Rightarrow> nat \<Rightarrow> string" where
  "copy_path output_path counter =
     (let directory = dirname output_path;
          filename = basename output_path;
          name = fst (splitext filename);
          ext = snd (splitext filename)
      in join directory (name @ ''_copy'' @ str_nat counter @ ext))"

definition stamp_path :: "string \<Rightarrow> int \<Rightarrow> string" where
  "stamp_path output_path timestamp =
     (let directory = dirname output_path;
          filename = basename output_path;
          name = fst (splitext filename);
          ext = snd (splitext filename)
      in join directory (name @ ''_'' @ str_int timestamp @ ext))"

text \<open>
  The \<^verbatim>\<open>while True\<close> loop of \<^verbatim>\<open>generate_unique_filename\<close>, entered with
  \<^verbatim>\<open>counter\<close>: it leaves through one of its two \<^verbatim>\<open>return\<close>s after at most 100
  rounds. \<^verbatim>\<open>now\<close> is what \<^verbatim>\<open>int(time.time())\<close> reads.
\<close>

function copy_loop :: "fs \<Rightarrow> int \<Rightarrow> string \<Rightarrow> nat \<Rightarrow> string" where
  "copy_loop fs now output_path counter =
     (let new_path = copy_path output_path counter
      in if \<not> path_exists fs new_path then new_path
         else if 100 < counter + 1 then stamp_path output_path now
         else copy_loop fs now output_path (counter + 1))"
  by pat_completeness auto
termination
  by (relation "measure (\<lambda>(fs, now, output_path, counter). 101 - counter)") auto

declare copy_loop.simps [simp del]

definition generate_unique_filename :: "fs \<Rightarrow> int \<Rightarrow> string \<Rightarrow> string" where
  "generate_unique_filename fs now output_path =
     (if \<not> path_exists fs output_path then output_path
      else copy_loop fs now output_path 1)"

section \<open>The imaging library\<close>

text \<open>
  The decoders, the encoders and the PDF and vector backends, which the program calls
  and does not implement, are fields of the environment, with the clock. An exception
  is the text that \<^verbatim>\<open>str(e)\<close> gives for it: a call that can raise returns
  \<^verbatim>\<open>Inl\<close> of that text or \<^verbatim>\<open>Inr\<close> of its value. \<^verbatim>\<open>reportlab\<close> and
  \<^verbatim>\<open>wand\<close> are \<^verbatim>\<open>None\<close> when the import fails.
\<close>

record env =
  clock :: int
  decoder :: "string \<Rightarrow> diskfile \<Rightarrow> string + image"
  convertible :: "string \<Rightarrow> string \<Rightarrow> bool"
  encoder :: "string \<Rightarrow> image \<Rightarrow> dict \<Rightarrow> string + nat"
  writable :: "string \<Rightarrow> bool"
  reportlab :: "(nat \<Rightarrow> real \<times> real \<times> real \<times> real \<Rightarrow> string + nat) option"
  wand :: "(string \<Rightarrow> nat \<Rightarrow> string + nat) option"

definition image_open :: "env \<Rightarrow> fs \<Rightarrow> string \<Rightarrow> string + image" where
  "image_open env fs p =
     (case fs p of
        None \<Rightarrow> Inl (''No such file or directory: '' @ p)
      | Some f \<Rightarrow> decoder env p f)"

definition image_new :: "string \<Rightarrow> int \<times> int \<Rightarrow> int \<times> int \<times> int \<Rightarrow> image" where
  "image_new m sz colour = \<lparr>mode = m, imsize = sz, pixels = Solid colour\<rparr>"

definition convert :: "env \<Rightarrow> image \<Rightarrow> string \<Rightarrow> string + image" where
  "convert env img m =
     (if convertible env (mode img) m
      then Inr (img\<lparr>mode := m, pixels := Converted m (pixels img)\<rparr>)
      else Inl (''conversion from '' @ mode img @ '' to '' @ m @ '' not supported''))"

text \<open>\<^verbatim>\<open>img.convert("P", palette=Image.ADAPTIVE)\<close>\<close>

definition convert_adaptive :: "env \<Rightarrow> image \<Rightarrow> string + image" where
  "convert_adaptive env img =
     (if convertible env (mode img) ''P''
      then Inr (img\<lparr>mode := ''P'', pixels := Quantized (pixels img)\<rparr>)
      else Inl (''conversion from '' @ mode img @ '' to P not supported''))"

text \<open>\<^verbatim>\<open>img.split()[-1]\<close>: the last band, a single-band image.\<close>

definition last_band :: "image \<Rightarrow> image" where
  "last_band img = \<lparr>mode = ''L'', imsize = imsize img, pixels = LastBand (pixels img)\<rparr>"

text \<open>
  \<^verbatim>\<open>background.paste(img, mask=m)\<close>: with a mask, only the region the mask covers is
  updated, in proportion to the mask; with \<^verbatim>\<open>mask=None\<close> the whole region is
  replaced and an alpha band of \<^verbatim>\<open>img\<close> is ignored.
\<close>

definition paste :: "image \<Rightarrow> image \<Rightarrow> image option \<Rightarrow> image" where
  "paste background img msk =
     background\<lparr>pixels := Pasted (pixels background) (pixels img) (map_option pixels msk)\<rparr>"

definition resize :: "image \<Rightarrow> int \<times> int \<Rightarrow> string + image" where
  "resize img sz =
     (if imsize img = sz then Inr img
      else if fst sz < 1 then Inl ''height and width must be > 0''
      else if snd sz < 1 then Inl ''height and width must be > 0''
      else Inr (img\<lparr>imsize := sz, pixels := Resampled sz (pixels img)\<rparr>))"

text \<open>
  \<^verbatim>\<open>Image.thumbnail\<close>, as the library versions that have \<^verbatim>\<open>Image.Resampling\<close>
  compute the size. The float arithmetic of the library is exact arithmetic here.
  \<^verbatim>\<open>min(floor, ceil, key=key)\<close> keeps the floor on a tie.
\<close>

definition round_aspect :: "real \<Rightarrow> (int \<Rightarrow> real) \<Rightarrow> int" where
  "round_aspect number key =
     max (if key \<lfloor>number\<rfloor> \<le> key \<lceil>number\<rceil> then \<lfloor>number\<rfloor> else \<lceil>number\<rceil>) 1"

definition preserve_aspect_ratio :: "int \<times> int \<Rightarrow> int \<times> int \<Rightarrow> string + (int \<times> int) option" where
  "preserve_aspect_ratio sz provided_size =
     (let width = fst sz; height = snd sz; x = fst provided_size; y = snd provided_size
      in if width \<le> x \<and> height \<le> y then Inr None
         else if height = 0 then Inl ''division by zero''
         else let aspect = real_of_int width / real_of_int height
           in if y = 0 then Inl ''division by zero''
              else if aspect \<le> real_of_int x / real_of_int y
              then Inr (Some (round_aspect (real_of_int y * aspect)
                                (\<lambda>n. \<bar>aspect - real_of_int n / real_of_int y\<bar>), y))
              else if aspect = 0 then Inl ''float division by zero''
              else Inr (Some (x, round_aspect (real_of_int x / aspect)
                                   (\<lambda>n. if n = 0 then 0
                                         else \<bar>aspect - real_of_int x / real_of_int n\<bar>))))"

definition thumbnail :: "image \<Rightarrow> int \<times> int \<Rightarrow> string + image" where
  "thumbnail img sz =
     (case preserve_aspect_ratio (imsize img) sz of
        Inl e \<Rightarrow> Inl e
      | Inr None \<Rightarrow> Inr img
      | Inr (Some new_sz) \<Rightarrow> resize img new_sz)"

text \<open>
  Encoding. The JPEG encoder of the library writes the modes of its table only and
  raises for every other mode; whether an encoder is there at all, and what else makes
  it fail, is the environment's.
\<close>

definition jpeg_rawmodes :: "string list" where
  "jpeg_rawmodes = [''1'', ''L'', ''RGB'', ''RGBX'', ''CMYK'', ''YCbCr'']"

definition mode_error :: "string \<Rightarrow> string" where
  "mode_error m = ''cannot write mode '' @ m @ '' as JPEG''"

definition encode :: "env \<Rightarrow> image \<Rightarrow> string \<Rightarrow> dict \<Rightarrow> string + nat" where
  "encode env img fmt opts =
     (if fmt = ''JPEG'' \<and> mode img \<notin> set jpeg_rawmodes then Inl (mode_error (mode img))
      else encoder env fmt img opts)"

text \<open>\<^verbatim>\<open>img.save(path, fmt, ...)\<close>: a failed save leaves no file behind.\<close>

definition save :: "env \<Rightarrow> fs \<Rightarrow> image \<Rightarrow> string \<Rightarrow> string \<Rightarrow> dict \<Rightarrow> (string + unit) \<times> fs" where
  "save env fs img path fmt opts =
     (if \<not> writable env path then (Inl (''cannot open for writing: '' @ path), fs)
      else case encode env img fmt opts of
             Inl e \<Rightarrow> (Inl e, fs)
           | Inr n \<Rightarrow> (Inr (), fs(path \<mapsto> File fmt n img)))"

definition then_save ::
  "env \<Rightarrow> fs \<Rightarrow> string + image \<Rightarrow> string \<Rightarrow> string \<Rightarrow> dict \<Rightarrow> (string + unit) \<times> fs" where
  "then_save env fs r path fmt opts =
     (case r of Inl e \<Rightarrow> (Inl e, fs) | Inr img \<Rightarrow> save env fs img path fmt opts)"

section \<open>FormatHandler\<close>

definition SUPPORTED_FORMATS :: "string list" where
  "SUPPORTED_FORMATS =
     [''.jpg'', ''.jpeg'', ''.png'', ''.gif'', ''.bmp'', ''.tiff'', ''.tif'', ''.webp'',
      ''.ico'', ''.ppm'', ''.pgm'', ''.pbm'',
      ''.avif'', ''.heic'', ''.heif'',
      ''.svg'', ''.dds'', ''.tga'', ''.eps'', ''.im'',
      ''.pdf'', ''.psd'', ''.icns'', ''.fits'', ''.msp'',
      ''.pcx'', ''.sgi'', ''.spider'', ''.xbm'', ''.xpm'']"

definition error_result :: "string \<Rightarrow> string \<Rightarrow> dict" where
  "error_result prefix e =
     [(''success'', PBool False), (''error'', PStr e),
      (''message'', PStr (cross_mark @ prefix @ e))]"

text \<open>
  A \<^verbatim>\<open>try\<close> body gives \<^verbatim>\<open>Inl\<close> of the exception it raised or \<^verbatim>\<open>Inr\<close> of the
  dictionary it returned, with the file system it left; \<^verbatim>\<open>except Exception as e\<close>
  turns the exception into the error dictionary.
\<close>

definition catch :: "string \<Rightarrow> (string + dict) \<times> fs \<Rightarrow> dict \<times> fs" where
  "catch prefix r =
     (case fst r of
        Inl e \<Rightarrow> (error_result prefix e, snd r)
      | Inr d \<Rightarrow> (d, snd r))"

definition save_as_pdf_body ::
  "env \<Rightarrow> fs \<Rightarrow> image \<Rightarrow> string \<Rightarrow> int \<Rightarrow> (string + dict) \<times> fs" where
  "save_as_pdf_body env fs img output_path quality =
     (case reportlab env of
        None \<Rightarrow> (Inl ''No module named reportlab'', fs)
      | Some draw_and_save \<Rightarrow>
          (let unique_path = generate_unique_filename fs (clock env) output_path
           in (case (if mode img = ''RGBA'' then convert env img ''RGB'' else Inr img) of
               Inl e \<Rightarrow> (Inl e, fs)
             | Inr img1 \<Rightarrow>
                 (case encode env img1 ''JPEG'' [(''quality'', PInt quality)] of
                    Inl e \<Rightarrow> (Inl e, fs)
                  | Inr buffer_len \<Rightarrow>
                      let img_width = real_of_int (fst (imsize img1));
                          img_height = real_of_int (snd (imsize img1))
                      in if img_width = 0 then (Inl ''float division by zero'', fs)
                         else if img_height = 0 then (Inl ''float division by zero'', fs)
                         else
                           let scale = min (612 / img_width) (792 / img_height);
                               new_width = img_width * scale;
                               new_height = img_height * scale;
                               x = (612 - new_width) / 2;
                               y = (792 - new_height) / 2
                           in (case draw_and_save buffer_len (x, y, new_width, new_height) of
                                Inl e \<Rightarrow> (Inl e, fs)
                              | Inr n \<Rightarrow>
                                  if \<not> writable env unique_path
                                  then (Inl (''cannot open for writing: '' @ unique_path), fs)
                                  else (Inr [(''success'', PBool True),
                                             (''output_path'', PStr unique_path),
                                             (''message'', PStr (check_mark @ '' Guardado como PDF''))],
                                        fs(unique_path \<mapsto> File ''PDF'' n img1)))))))"

definition save_as_pdf :: "env \<Rightarrow> fs \<Rightarrow> image \<Rightarrow> string \<Rightarrow> int \<Rightarrow> dict \<times> fs" where
  "save_as_pdf env fs img output_path quality =
     catch '' Error creando PDF: '' (save_as_pdf_body env fs img output_path quality)"

text \<open>
  \<^verbatim>\<open>save_as_svg\<close> and \<^verbatim>\<open>save_as_eps\<close> differ in the target format and the
  format's name in the messages only.
\<close>

definition save_with_wand ::
  "env \<Rightarrow> fs \<Rightarrow> image \<Rightarrow> string \<Rightarrow> string \<Rightarrow> string \<Rightarrow> (string + dict) \<times> fs" where
  "save_with_wand env fs img output_path wand_format label =
     (case wand env of
        None \<Rightarrow> (Inl ''No module named wand'', fs)
      | Some wand_convert \<Rightarrow>
          (let unique_path = generate_unique_filename fs (clock env) output_path
           in (case encode env img ''PNG'' [] of
               Inl e \<Rightarrow> (Inl e, fs)
             | Inr buffer_len \<Rightarrow>
                 (case wand_convert wand_format buffer_len of
                    Inl e \<Rightarrow> (Inl e, fs)
                  | Inr n \<Rightarrow>
                      if \<not> writable env unique_path
                      then (Inl (''cannot open for writing: '' @ unique_path), fs)
                      else (Inr [(''success'', PBool True),
                                 (''output_path'', PStr unique_path),
                                 (''message'', PStr (check_mark @ '' Guardado como '' @ label))],
                            fs(unique_path \<mapsto> File label n img))))))"

definition save_as_svg :: "env \<Rightarrow> fs \<Rightarrow> image \<Rightarrow> string \<Rightarrow> dict \<times> fs" where
  "save_as_svg env fs img output_path =
     catch '' Error creando SVG: '' (save_with_wand env fs img output_path ''svg'' ''SVG'')"

definition save_as_eps :: "env \<Rightarrow> fs \<Rightarrow> image \<Rightarrow> string \<Rightarrow> dict \<times> fs" where
  "save_as_eps env fs img output_path =
     catch '' Error creando EPS: '' (save_with_wand env fs img output_path ''eps'' ''EPS'')"

text \<open>
  The preparation of an image for the JPEG encoder: lines 269 to 276 of
  \<^verbatim>\<open>save_image_universal\<close>, and again lines 201 to 208 of
  \<^verbatim>\<open>estimate_compressed_size\<close>.
\<close>

definition flatten_on_white :: "env \<Rightarrow> image \<Rightarrow> string + image" where
  "flatten_on_white env img =
     (if mode img \<in> set [''RGBA'', ''LA'', ''P''] then
        (let background = image_new ''RGB'' (imsize img) (255, 255, 255)
         in case (if mode img = ''P'' then convert env img ''RGBA'' else Inr img) of
              Inl e \<Rightarrow> Inl e
            | Inr img1 \<Rightarrow>
                Inr (paste background img1
                       (if mode img1 = ''RGBA'' then Some (last_band img1) else None)))
      else if mode img \<noteq> ''RGB'' then convert env img ''RGB''
      else Inr img)"

text \<open>The preparation for the PNG encoder: lines 280 to 281, and 364 to 365.\<close>

definition prepare_png :: "env \<Rightarrow> image \<Rightarrow> string + image" where
  "prepare_png env img =
     (if mode img \<notin> set [''RGBA'', ''RGB'', ''L''] then convert env img ''RGBA'' else Inr img)"

definition saved :: "string \<Rightarrow> string \<Rightarrow> (string + unit) \<times> fs \<Rightarrow> (string + dict) \<times> fs" where
  "saved unique_path ext r =
     (case fst r of
        Inl e \<Rightarrow> (Inl e, snd r)
      | Inr u \<Rightarrow>
          (Inr [(''success'', PBool True),
                (''output_path'', PStr unique_path),
                (''message'', PStr (check_mark @ '' Guardado como '' @ upper ext))],
           snd r))"

text \<open>
  The branches for \<^verbatim>\<open>.avif\<close> (lines 328 to 341) and for \<^verbatim>\<open>.heic\<close> and
  \<^verbatim>\<open>.heif\<close> (lines 343 to 356): they differ in the encoder and in the name in the
  message only.
\<close>

definition best_effort ::
  "env \<Rightarrow> fs \<Rightarrow> image \<Rightarrow> string \<Rightarrow> string \<Rightarrow> int \<Rightarrow> string \<Rightarrow> string
     \<Rightarrow> (string + dict) \<times> fs" where
  "best_effort env fs img unique_path ext quality fmt label =
     (case save env fs img unique_path fmt [(''quality'', PInt quality)] of
        (Inr u, fs1) \<Rightarrow> saved unique_path ext (Inr u, fs1)
      | (Inl e, fs1) \<Rightarrow>
          (let png_path =
                generate_unique_filename fs1 (clock env) (replace unique_path ext ''.png'')
           in (case save env fs1 img png_path ''PNG'' [(''optimize'', PBool True)] of
               (Inl e2, fs2) \<Rightarrow> (Inl e2, fs2)
             | (Inr u, fs2) \<Rightarrow>
                 (Inr [(''success'', PBool True),
                       (''fallback'', PBool True),
                       (''output_path'', PStr png_path),
                       (''message'',
                        PStr (warning_sign @ '' '' @ label @ '' no disponible. Convertido a PNG.''))],
                  fs2))))"

text \<open>The branch for the formats that are never written: lines 359 to 375.\<close>

definition write_unsupported ::
  "env \<Rightarrow> fs \<Rightarrow> image \<Rightarrow> string \<Rightarrow> string \<Rightarrow> (string + dict) \<times> fs" where
  "write_unsupported env fs img unique_path ext =
     (let png_path =
            generate_unique_filename fs (clock env) (replace unique_path ext ''.png'')
      in (case then_save env fs (prepare_png env img) png_path ''PNG''
                [(''optimize'', PBool True), (''compress_level'', PInt 9)] of
           (Inl e, fs1) \<Rightarrow> (Inl e, fs1)
         | (Inr u, fs1) \<Rightarrow>
             (Inr [(''success'', PBool True),
                   (''fallback'', PBool True),
                   (''original_format'', PStr ext),
                   (''final_format'', PStr ''.png''),
                   (''output_path'', PStr png_path),
                   (''message'',
                    PStr (warning_sign @ '' '' @ upper ext
                          @ '' no soportado para escritura. Convertido a PNG.''))],
              fs1)))"

text \<open>
  The \<^verbatim>\<open>else\<close> block of \<^verbatim>\<open>save_image_universal\<close>, lines 266 to 389, after
  \<^verbatim>\<open>unique_path\<close> is computed. A \<^verbatim>\<open>save\<close> without a format takes the format from
  the extension, which is PPM for the three extensions of that branch.
\<close>

definition standard_formats ::
  "env \<Rightarrow> fs \<Rightarrow> image \<Rightarrow> string \<Rightarrow> string \<Rightarrow> int \<Rightarrow> (string + dict) \<times> fs" where
  "standard_formats env fs img unique_path ext quality =
     (if ext \<in> set [''.jpg'', ''.jpeg''] then
        saved unique_path ext
          (then_save env fs (flatten_on_white env img) unique_path ''JPEG''
             [(''quality'', PInt quality), (''optimize'', PBool True),
              (''progressive'', PBool True)])
      else if ext = ''.png'' then
        saved unique_path ext
          (then_save env fs (prepare_png env img) unique_path ''PNG''
             [(''optimize'', PBool True), (''compress_level'', PInt 9)])
      else if ext = ''.webp'' then
        saved unique_path ext
          (save env fs img unique_path ''WEBP''
             [(''quality'', PInt quality), (''optimize'', PBool True), (''method'', PInt 6)])
      else if ext = ''.gif'' then
        saved unique_path ext
          (then_save env fs (if mode img \<noteq> ''P'' then convert_adaptive env img else Inr img)
             unique_path ''GIF'' [(''optimize'', PBool True)])
      else if ext \<in> set [''.tiff'', ''.tif''] then
        saved unique_path ext
          (save env fs img unique_path ''TIFF''
             [(''compression'', PStr ''tiff_lzw''), (''optimize'', PBool True)])
      else if ext = ''.bmp'' then
        saved unique_path ext
          (then_save env fs
             (if mode img \<notin> set [''RGB'', ''L''] then convert env img ''RGB'' else Inr img)
             unique_path ''BMP'' [])
      else if ext = ''.ico'' then
        saved unique_path ext
          (save env fs img unique_path ''ICO''
             [(''sizes'', PTuple [PTuple [PInt 16, PInt 16], PTuple [PInt 32, PInt 32],
                                  PTuple [PInt 48, PInt 48], PTuple [PInt 64, PInt 64]])])
      else if ext \<in> set [''.ppm'', ''.pgm'', ''.pbm''] then
        saved unique_path ext
          (then_save env fs
             (if ext = ''.pgm'' \<and> mode img \<noteq> ''L'' then convert env img ''L''
              else if ext = ''.pbm'' \<and> mode img \<noteq> ''1'' then convert env img ''1''
              else if ext = ''.ppm'' \<and> mode img \<noteq> ''RGB'' then convert env img ''RGB''
              else Inr img)
             unique_path ''PPM'' [])
      else if ext = ''.tga'' then
        saved unique_path ext
          (then_save env fs
             (if mode img \<notin> set [''RGB'', ''RGBA''] then convert env img ''RGBA'' else Inr img)
             unique_path ''TGA'' [])
      else if ext = ''.pcx'' then
        saved unique_path ext
          (then_save env fs
             (if mode img \<notin> set [''RGB'', ''L''] then convert env img ''RGB'' else Inr img)
             unique_path ''PCX'' [])
      else if ext = ''.xbm'' then
        saved unique_path ext
          (then_save env fs (if mode img \<noteq> ''1'' then convert env img ''1'' else Inr img)
             unique_path ''XBM'' [])
      else if ext = ''.avif'' then
        best_effort env fs img unique_path ext quality ''AVIF'' ''AVIF''
      else if ext \<in> set [''.heic'', ''.heif''] then
        best_effort env fs img unique_path ext quality ''HEIF'' ''HEIC/HEIF''
      else if ext \<in> set [''.psd'', ''.icns'', ''.fits'', ''.msp'', ''.sgi'', ''.spider'',
                          ''.xpm'', ''.dds'', ''.im''] then
        write_unsupported env fs img unique_path ext
      else
        (Inr [(''success'', PBool False),
              (''error'', PStr (''Formato '' @ ext @ '' no soportado'')),
              (''message'', PStr (cross_mark @ '' Formato '' @ upper ext @ '' no reconocido''))],
         fs))"

definition save_image_universal :: "env \<Rightarrow> fs \<Rightarrow> image \<Rightarrow> string \<Rightarrow> int \<Rightarrow> dict \<times> fs" where
  "save_image_universal env fs img output_path quality =
     (let ext = lower (snd (splitext output_path))
      in if ext = ''.pdf'' then save_as_pdf env fs img output_path quality
         else if ext = ''.svg'' then save_as_svg env fs img output_path
         else if ext = ''.eps'' then save_as_eps env fs img output_path
         else
           catch '' Error: ''
             (standard_formats env fs img
                (generate_unique_filename fs (clock env) output_path) ext quality))"

section \<open>CompressionEngine\<close>

text \<open>
  A callback is called with a list of arguments and either returns (\<^verbatim>\<open>None\<close>) or
  raises (\<^verbatim>\<open>Some\<close> of the exception). \<^verbatim>\<open>notify cb args\<close> is
  \<^verbatim>\<open>if cb: cb(*args)\<close>.
\<close>

type_synonym callback = "pyval list \<Rightarrow> string option"

definition notify :: "callback option \<Rightarrow> pyval list \<Rightarrow> string option" where
  "notify cb args = (case cb of None \<Rightarrow> None | Some f \<Rightarrow> f args)"

definition is_success :: "dict \<Rightarrow> bool" where
  "is_success d = (map_of d ''success'' = Some (PBool True))"

text \<open>Lines 51 to 55: the resize that \<^verbatim>\<open>compress_image\<close> applies.\<close>

definition resize_step :: "image \<Rightarrow> (int \<times> int) option \<Rightarrow> bool \<Rightarrow> string + image" where
  "resize_step img new_size maintain_aspect =
     (case new_size of
        None \<Rightarrow> Inr img
      | Some sz \<Rightarrow>
          if sz = (0, 0) then Inr img
          else if maintain_aspect then thumbnail img sz
          else resize img sz)"

definition compression_ratio :: "nat \<Rightarrow> nat \<Rightarrow> pyval" where
  "compression_ratio compressed_size original_size =
     (if 0 < original_size
      then PFloat ((1 - real compressed_size / real original_size) * 100)
      else PInt 0)"

definition compress_image_body ::
  "env \<Rightarrow> fs \<Rightarrow> string \<Rightarrow> string \<Rightarrow> int \<Rightarrow> (int \<times> int) option \<Rightarrow> bool
     \<Rightarrow> callback option \<Rightarrow> (string + dict) \<times> fs" where
  "compress_image_body env fs input_path output_path quality new_size maintain_aspect
       progress_callback =
     (case notify progress_callback [PStr ''Cargando imagen...''] of
        Some e \<Rightarrow> (Inl e, fs)
      | None \<Rightarrow>
     (case getsize fs input_path of
        Inl e \<Rightarrow> (Inl e, fs)
      | Inr original_size \<Rightarrow>
     (case image_open env fs input_path of
        Inl e \<Rightarrow> (Inl e, fs)
      | Inr img0 \<Rightarrow>
     (case notify progress_callback [PStr ''Procesando imagen...''] of
        Some e \<Rightarrow> (Inl e, fs)
      | None \<Rightarrow>
     (case resize_step img0 new_size maintain_aspect of
        Inl e \<Rightarrow> (Inl e, fs)
      | Inr img \<Rightarrow>
     (case notify progress_callback [PStr ''Guardando imagen...''] of
        Some e \<Rightarrow> (Inl e, fs)
      | None \<Rightarrow>
     (case save_image_universal env fs img output_path quality of
        (save_result, fs1) \<Rightarrow>
          if \<not> is_success save_result then
            (Inr [(''success'', PBool False),
                  (''error'', dict_get save_result ''error'' (PStr ''Error desconocido al guardar'')),
                  (''message'',
                   dict_get save_result ''message'' (PStr (cross_mark @ '' Error al guardar'')))],
             fs1)
          else
            (case map_of save_result ''output_path'' of
               Some (PStr final_output_path) \<Rightarrow>
                 (case getsize fs1 final_output_path of
                    Inl e \<Rightarrow> (Inl e, fs1)
                  | Inr compressed_size \<Rightarrow>
                      (let output_ext =
                             lstrip CHR ''.'' (upper (snd (splitext final_output_path)))
                       in (case notify progress_callback
                                  [PStr (''Compresi'' @ o_acute @ ''n completada'')] of
                             Some e \<Rightarrow> (Inl e, fs1)
                           | None \<Rightarrow>
                               (Inr [(''success'', PBool True),
                                     (''original_size'', PInt (int original_size)),
                                     (''compressed_size'', PInt (int compressed_size)),
                                     (''compression_ratio'',
                                      compression_ratio compressed_size original_size),
                                     (''original_dimensions'',
                                      PTuple [PInt (fst (imsize img0)), PInt (snd (imsize img0))]),
                                     (''final_dimensions'',
                                      PTuple [PInt (fst (imsize img)), PInt (snd (imsize img))]),
                                     (''format'', PStr output_ext),
                                     (''output_path'', PStr final_output_path),
                                     (''fallback'', dict_get save_result ''fallback'' (PBool False)),
                                     (''message'',
                                      dict_get save_result ''message''
                                        (PStr (check_mark @ '' Comprimido como '' @ output_ext)))],
                                fs1))))
             | _ \<Rightarrow> (Inl ''output_path'', fs1)))))))))"

definition compress_image ::
  "env \<Rightarrow> fs \<Rightarrow> string \<Rightarrow> string \<Rightarrow> int \<Rightarrow> (int \<times> int) option \<Rightarrow> bool
     \<Rightarrow> callback option \<Rightarrow> dict \<times> fs" where
  "compress_image env fs input_path output_path quality new_size maintain_aspect
       progress_callback =
     catch '' Error: ''
       (compress_image_body env fs input_path output_path quality new_size maintain_aspect
          progress_callback)"

text \<open>
  One round of the loop of \<^verbatim>\<open>compress_multiple_images\<close>, lines 126 to 159: the
  dictionary it appends to \<^verbatim>\<open>results\<close>, and the file system it leaves.
  \<^verbatim>\<open>individual_progress\<close> is the closure handed to \<^verbatim>\<open>compress_image\<close>.
\<close>

definition individual_progress :: "callback option \<Rightarrow> nat \<Rightarrow> nat \<Rightarrow> callback" where
  "individual_progress progress_callback i total_images args =
     (case args of
        [PStr msg] \<Rightarrow>
          notify progress_callback
            [PStr (msg @ '' ('' @ str_nat (i + 1) @ ''/'' @ str_nat total_images @ '')'')]
      | _ \<Rightarrow> Some ''individual_progress() takes 1 positional argument'')"

definition item_error :: "string \<Rightarrow> string \<Rightarrow> dict" where
  "item_error input_path e =
     [(''success'', PBool False),
      (''error'', PStr e),
      (''message'', PStr (cross_mark @ '' Error procesando '' @ basename input_path @ '': '' @ e)),
      (''input_path'', PStr input_path)]"

definition process_item ::
  "env \<Rightarrow> string \<Rightarrow> string \<Rightarrow> int \<Rightarrow> (int \<times> int) option \<Rightarrow> bool
     \<Rightarrow> callback option \<Rightarrow> callback option \<Rightarrow> nat \<Rightarrow> fs \<Rightarrow> nat \<Rightarrow> string \<Rightarrow> dict \<times> fs" where
  "process_item env output_dir output_format quality new_size maintain_aspect
       progress_callback image_callback total_images fs i input_path =
     (let base_name = fst (splitext (basename input_path));
          output_filename = base_name @ output_format;
          output_path = join output_dir output_filename
      in (case (if progress_callback \<noteq> None \<and> total_images = 0 then Some ''division by zero''
                else notify progress_callback
                       [PStr (''Procesando '' @ str_nat (i + 1) @ ''/'' @ str_nat total_images
                              @ '': '' @ base_name),
                        PFloat (real i / real total_images * 100)]) of
            Some e \<Rightarrow> (item_error input_path e, fs)
          | None \<Rightarrow>
              (case compress_image env fs input_path output_path quality new_size maintain_aspect
                      (Some (individual_progress progress_callback i total_images)) of
                 (result, fs1) \<Rightarrow>
                   if image_callback \<noteq> None \<and> is_success result then
                     (case notify image_callback
                             [PStr input_path,
                              dict_get result ''output_path'' (PStr []),
                              PDict result] of
                        Some e \<Rightarrow> (item_error input_path e, fs1)
                      | None \<Rightarrow> (result, fs1))
                   else (result, fs1))))"

fun batch_loop ::
  "(fs \<Rightarrow> nat \<Rightarrow> string \<Rightarrow> dict \<times> fs) \<Rightarrow> fs \<Rightarrow> nat \<Rightarrow> string list \<Rightarrow> dict list
     \<Rightarrow> dict list \<times> fs" where
  "batch_loop item fs i [] results = (results, fs)"
| "batch_loop item fs i (input_path # rest) results =
     (case item fs i input_path of
        (result, fs1) \<Rightarrow> batch_loop item fs1 (i + 1) rest (results @ [result]))"

text \<open>
  \<^verbatim>\<open>compress_multiple_images\<close> returns the list (\<^verbatim>\<open>Inr\<close>), unless the last
  progress notification, which is outside every \<^verbatim>\<open>try\<close>, raises (\<^verbatim>\<open>Inl\<close>).
\<close>

definition compress_multiple_images ::
  "env \<Rightarrow> fs \<Rightarrow> string list \<Rightarrow> string \<Rightarrow> string \<Rightarrow> int \<Rightarrow> (int \<times> int) option \<Rightarrow> bool
     \<Rightarrow> callback option \<Rightarrow> callback option \<Rightarrow> (string + dict list) \<times> fs" where
  "compress_multiple_images env fs image_paths output_dir output_format quality new_size
       maintain_aspect progress_callback image_callback =
     (let total_images = length image_paths
      in (case batch_loop
                 (process_item env output_dir output_format quality new_size maintain_aspect
                    progress_callback image_callback total_images)
                 fs 0 image_paths [] of
            (results, fs1) \<Rightarrow>
              (case notify progress_callback
                      [PStr (''Compresi'' @ o_acute @ ''n completada''), PInt 100] of
                 Some e \<Rightarrow> (Inl e, fs1)
               | None \<Rightarrow> (Inr results, fs1))))"

text \<open>
  \<^verbatim>\<open>round(x, 2)\<close>, which rounds a tie to the even neighbour.
\<close>

definition round_half_even :: "real \<Rightarrow> int" where
  "round_half_even x =
     (let f = \<lfloor>x\<rfloor>; d = x - real_of_int f
      in if d < 1 / 2 then f
         else if 1 / 2 < d then f + 1
         else if even f then f
         else f + 1)"

definition round2 :: "real \<Rightarrow> real" where
  "round2 x = real_of_int (round_half_even (x * 100)) / 100"

text \<open>
  \<^verbatim>\<open>estimate_compressed_size\<close>. Its \<^verbatim>\<open>save\<close> goes to a \<^verbatim>\<open>BytesIO\<close> buffer:
  \<^verbatim>\<open>encode\<close>, which gives the length of the buffer and has no file system to write to.
\<close>

definition estimate_body ::
  "env \<Rightarrow> fs \<Rightarrow> string \<Rightarrow> int \<Rightarrow> (int \<times> int) option \<Rightarrow> (string + dict) \<times> fs" where
  "estimate_body env fs image_path quality new_size =
     (case image_open env fs image_path of
        Inl e \<Rightarrow> (Inl e, fs)
      | Inr img0 \<Rightarrow>
     (case (case new_size of
              None \<Rightarrow> Inr img0
            | Some sz \<Rightarrow> if sz = (0, 0) then Inr img0 else thumbnail img0 sz) of
        Inl e \<Rightarrow> (Inl e, fs)
      | Inr img1 \<Rightarrow>
     (case flatten_on_white env img1 of
        Inl e \<Rightarrow> (Inl e, fs)
      | Inr img2 \<Rightarrow>
     (case encode env img2 ''JPEG'' [(''quality'', PInt quality), (''optimize'', PBool True)] of
        Inl e \<Rightarrow> (Inl e, fs)
      | Inr estimated_size \<Rightarrow>
     (case getsize fs image_path of
        Inl e \<Rightarrow> (Inl e, fs)
      | Inr original_size \<Rightarrow>
          (Inr [(''success'', PBool True),
                (''estimated_size'', PInt (int estimated_size)),
                (''original_size'', PInt (int original_size)),
                (''compression_ratio'', compression_ratio estimated_size original_size),
                (''estimated_size_mb'', PFloat (round2 (real estimated_size / (1024 * 1024))))],
           fs))))))"

definition estimate_compressed_size ::
  "env \<Rightarrow> fs \<Rightarrow> string \<Rightarrow> int \<Rightarrow> (int \<times> int) option \<Rightarrow> dict \<times> fs" where
  "estimate_compressed_size env fs image_path quality new_size =
     (case estimate_body env fs image_path quality new_size of
        (Inl e, fs1) \<Rightarrow> ([(''success'', PBool False), (''error'', PStr e)], fs1)
      | (Inr d, fs1) \<Rightarrow> (d, fs1))"

section \<open>Example values\<close>

text \<open>
  A 2000 by 1500 truecolour image with alpha, the PNG file of 5,000,000 bytes it is
  decoded from, and a runtime that has neither an AVIF nor a HEIF encoder, nor the PDF
  and vector backends.
\<close>

definition sample_image :: image where
  "sample_image = \<lparr>mode = ''RGBA'', imsize = (2000, 1500), pixels = Decoded ''in.png''\<rparr>"

definition sample_file :: diskfile where
  "sample_file = File ''PNG'' 5000000 sample_image"

definition plain_runtime :: env where
  "plain_runtime =
     \<lparr>clock = 1700000000,
      decoder = (\<lambda>p f. Inr (fsource f)),
      convertible = (\<lambda>a b. True),
      encoder = (\<lambda>fmt img opts. if fmt \<in> set [''AVIF'', ''HEIF''] then Inl fmt else Inr 1000000),
      writable = (\<lambda>p. True),
      reportlab = None,
      wand = None\<rparr>"

text \<open>A grey image with alpha and a palette image, both 2 by 2.\<close>

definition gray_alpha_image :: image where
  "gray_alpha_image = \<lparr>mode = ''LA'', imsize = (2, 2), pixels = Decoded ''gray.png''\<rparr>"

definition palette_image :: image where
  "palette_image = \<lparr>mode = ''P'', imsize = (2, 2), pixels = Decoded ''pal.gif''\<rparr>"

text \<open>
  A progress callback that raises on the closing notification of a batch, the call with
  a message and the integer 100, and returns on every other call.
\<close>

definition closing_raises :: callback where
  "closing_raises args =
     (case args of
        [PStr msg, PInt progress] \<Rightarrow> Some ''main thread is not in main loop''
      | _ \<Rightarrow> None)"

section \<open>Evaluation of the string functions\<close>

lemma str_nat_digit: "n < 10 \<Longrightarrow> str_nat n = [digit_char n]"
  by (simp add: str_nat.simps)

lemma str_nat_step: "10 \<le> n \<Longrightarrow> str_nat n = str_nat (n div 10) @ [digit_char (n mod 10)]"
  by (simp add: str_nat.simps [of n])

lemmas path_defs =
  dirname_def basename_def splitext_def join_def startswith_def rstrip_def lstrip_def

lemmas case_defs = lower_def lower_char_def upper_def upper_char_def

section \<open>The path allocator\<close>

lemma copy_loop_first_free:
  "c \<le> k \<Longrightarrow> k \<le> 100 \<Longrightarrow>
   (\<forall>j. c \<le> j \<and> j < k \<longrightarrow> path_exists fs (copy_path p j)) \<Longrightarrow>
   \<not> path_exists fs (copy_path p k) \<Longrightarrow>
   copy_loop fs now p c = copy_path p k"
proof (induction "k - c" arbitrary: c)
  case 0
  then have "c = k" by simp
  with 0 show ?case by (simp add: copy_loop.simps [of fs now p k])
next
  case (Suc d)
  then have lt: "c < k" and ex: "path_exists fs (copy_path p c)" by auto
  have "copy_loop fs now p (c + 1) = copy_path p k"
    using Suc by (intro Suc.hyps(1)) auto
  with lt ex Suc.prems(2) show ?case
    by (simp add: copy_loop.simps [of fs now p c])
qed

lemma copy_loop_exhausted:
  "c \<le> 100 \<Longrightarrow>
   (\<forall>j. c \<le> j \<and> j \<le> 100 \<longrightarrow> path_exists fs (copy_path p j)) \<Longrightarrow>
   copy_loop fs now p c = stamp_path p now"
proof (induction "100 - c" arbitrary: c)
  case 0
  then have "c = 100" by simp
  with 0 show ?case by (simp add: copy_loop.simps [of fs now p 100])
next
  case (Suc d)
  then have lt: "c < 100" and ex: "path_exists fs (copy_path p c)" by auto
  have "copy_loop fs now p (c + 1) = stamp_path p now"
    using Suc by (intro Suc.hyps(1)) auto
  with lt ex show ?case
    by (simp add: copy_loop.simps [of fs now p c])
qed

lemma copy_path_a1: "copy_path ''a.png'' (Suc 0) = ''a_copy1.png''"
  by (simp add: copy_path_def path_defs str_nat_digit digit_char_def)

lemma copy_path_a2: "copy_path ''a.png'' 2 = ''a_copy2.png''"
  by (simp add: copy_path_def path_defs str_nat_digit digit_char_def)

lemma str_int_clock: "str_int 1700000000 = ''1700000000''"
  by (simp add: str_int_def str_nat_digit str_nat_step digit_char_def)

lemma stamp_path_a: "stamp_path ''a.png'' 1700000000 = ''a_1700000000.png''"
  by (simp add: stamp_path_def path_defs str_int_clock)

text \<open>
  C4. If no file exists at the desired path, \<^verbatim>\<open>generate_unique_filename\<close> returns it
  unchanged. Otherwise it returns the first of the paths with the stem suffixed by
  \<^verbatim>\<open>_copy1\<close>, \<^verbatim>\<open>_copy2\<close>, ... up to \<^verbatim>\<open>_copy100\<close> (directory and extension
  kept) at which no file exists. If all hundred exist, the counter has passed 100 and it
  returns the stem suffixed by the timestamp in seconds, whether or not a file exists
  there.
\<close>

theorem generate_unique_filename_allocates:
  "(\<not> path_exists fs p \<longrightarrow> generate_unique_filename fs now p = p) \<and>
   (path_exists fs p \<and> 1 \<le> k \<and> k \<le> 100 \<and>
    (\<forall>j. 1 \<le> j \<and> j < k \<longrightarrow> path_exists fs (copy_path p j)) \<and>
    \<not> path_exists fs (copy_path p k)
      \<longrightarrow> generate_unique_filename fs now p = copy_path p k) \<and>
   (path_exists fs p \<and> (\<forall>j. 1 \<le> j \<and> j \<le> 100 \<longrightarrow> path_exists fs (copy_path p j))
      \<longrightarrow> generate_unique_filename fs now p = stamp_path p now)"
  using copy_loop_first_free [of 1 k fs p now] copy_loop_exhausted [of 1 fs p now]
  by (simp add: generate_unique_filename_def)

theorem generate_unique_filename_allocates_witness:
  "generate_unique_filename Map.empty 1700000000 ''a.png'' = ''a.png'' \<and>
   generate_unique_filename [''a.png'' \<mapsto> sample_file, ''a_copy1.png'' \<mapsto> sample_file]
     1700000000 ''a.png'' = ''a_copy2.png'' \<and>
   generate_unique_filename (\<lambda>p. Some sample_file) 1700000000 ''a.png'' = ''a_1700000000.png''"
proof -
  let ?fs = "[''a.png'' \<mapsto> sample_file, ''a_copy1.png'' \<mapsto> sample_file]"
  have a: "generate_unique_filename Map.empty 1700000000 ''a.png'' = ''a.png''"
    using generate_unique_filename_allocates [of Map.empty "''a.png''" 1700000000 1]
    by (simp add: path_exists_def)
  have "\<forall>j. 1 \<le> j \<and> j < (2::nat) \<longrightarrow> path_exists ?fs (copy_path ''a.png'' j)"
  proof (intro allI impI)
    fix j :: nat assume "1 \<le> j \<and> j < 2"
    then have "j = Suc 0" by simp
    then show "path_exists ?fs (copy_path ''a.png'' j)"
      by (simp add: copy_path_a1 path_exists_def)
  qed
  then have b: "generate_unique_filename ?fs 1700000000 ''a.png'' = ''a_copy2.png''"
    using generate_unique_filename_allocates [of ?fs "''a.png''" 1700000000 2]
    by (simp add: path_exists_def copy_path_a2)
  have c: "generate_unique_filename (\<lambda>p. Some sample_file) 1700000000 ''a.png''
             = ''a_1700000000.png''"
    using generate_unique_filename_allocates [of "\<lambda>p. Some sample_file" "''a.png''" 1700000000 1]
    by (simp add: path_exists_def stamp_path_a)
  from a b c show ?thesis by simp
qed

section \<open>Unregistered extensions\<close>

text \<open>
  C2. When the lower-cased extension of the destination path is not in the table of
  supported formats, \<^verbatim>\<open>save_image_universal\<close> returns the failure dictionary with
  the error "Formato ... no soportado", which has no fallback entry, and leaves the file
  system as it was: nothing is written, no PNG either.
\<close>

theorem unregistered_extension_fails:
  assumes "lower (snd (splitext output_path)) \<notin> set SUPPORTED_FORMATS"
  shows "save_image_universal env fs img output_path quality =
           ([(''success'', PBool False),
             (''error'', PStr (''Formato '' @ lower (snd (splitext output_path)) @ '' no soportado'')),
             (''message'', PStr (cross_mark @ '' Formato ''
                                 @ upper (lower (snd (splitext output_path))) @ '' no reconocido''))],
            fs)"
  using assms
  by (simp add: save_image_universal_def standard_formats_def catch_def SUPPORTED_FORMATS_def
        Let_def)

lemma ext_xyz: "lower (snd (splitext ''out.xyz'')) = ''.xyz''"
  by (simp add: path_defs case_defs)

lemma upper_xyz: "upper ''.xyz'' = ''.XYZ''"
  by (simp add: case_defs)

theorem unregistered_extension_fails_witness:
  "lower (snd (splitext ''out.xyz'')) \<notin> set SUPPORTED_FORMATS \<and>
   save_image_universal plain_runtime Map.empty sample_image ''out.xyz'' 85 =
     ([(''success'', PBool False),
       (''error'', PStr ''Formato .xyz no soportado''),
       (''message'', PStr (cross_mark @ '' Formato .XYZ no reconocido''))],
      Map.empty)"
proof -
  have h: "lower (snd (splitext ''out.xyz'')) \<notin> set SUPPORTED_FORMATS"
    by (simp add: ext_xyz SUPPORTED_FORMATS_def)
  show ?thesis
    using h unregistered_extension_fails [OF h, of plain_runtime Map.empty sample_image 85]
    by (simp add: ext_xyz upper_xyz)
qed

section \<open>Fallback to PNG and preparation for JPEG\<close>

lemmas save_defs =
  save_image_universal_def standard_formats_def catch_def saved_def then_save_def save_def
  encode_def generate_unique_filename_def path_exists_def Let_def

lemma ext_heic: "lower (snd (splitext ''out.heic'')) = ''.heic''"
  by (simp add: path_defs case_defs)

lemma replace_heic: "replace ''out.heic'' ''.heic'' ''.png'' = ''out.png''"
  by code_simp

lemma heic_result:
  "save_image_universal plain_runtime [''in.png'' \<mapsto> sample_file] sample_image ''out.heic'' 85 =
     ([(''success'', PBool True),
       (''fallback'', PBool True),
       (''output_path'', PStr ''out.png''),
       (''message'', PStr (warning_sign @ '' HEIC/HEIF no disponible. Convertido a PNG.''))],
      [''in.png'' \<mapsto> sample_file, ''out.png'' \<mapsto> File ''PNG'' 1000000 sample_image])"
  by (simp add: save_defs best_effort_def ext_heic replace_heic plain_runtime_def)

lemma ext_psd: "lower (snd (splitext ''out.psd'')) = ''.psd''"
  by (simp add: path_defs case_defs)

lemma replace_psd: "replace ''out.psd'' ''.psd'' ''.png'' = ''out.png''"
  by code_simp

lemma upper_psd: "upper ''.psd'' = ''.PSD''"
  by (simp add: case_defs)

lemma psd_result:
  "save_image_universal plain_runtime [''in.png'' \<mapsto> sample_file] sample_image ''out.psd'' 85 =
     ([(''success'', PBool True),
       (''fallback'', PBool True),
       (''original_format'', PStr ''.psd''),
       (''final_format'', PStr ''.png''),
       (''output_path'', PStr ''out.png''),
       (''message'', PStr (warning_sign @ '' .PSD no soportado para escritura. Convertido a PNG.''))],
      [''in.png'' \<mapsto> sample_file, ''out.png'' \<mapsto> File ''PNG'' 1000000 sample_image])"
  by (simp add: save_defs write_unsupported_def prepare_png_def ext_psd replace_psd upper_psd
        plain_runtime_def sample_image_def)

text \<open>
  C1. On a runtime without a HEIF encoder, saving to \<^verbatim>\<open>out.heic\<close> succeeds with the
  fallback flag and writes a PNG to \<^verbatim>\<open>out.png\<close>, but the returned dictionary has
  neither \<^verbatim>\<open>original_format\<close> nor \<^verbatim>\<open>final_format\<close>. The branch for the formats
  that are never written (\<^verbatim>\<open>psd_result\<close>) records both.
\<close>

theorem heic_fallback_omits_formats:
  "is_success (fst (save_image_universal plain_runtime [''in.png'' \<mapsto> sample_file]
                      sample_image ''out.heic'' 85)) \<and>
   map_of (fst (save_image_universal plain_runtime [''in.png'' \<mapsto> sample_file]
                  sample_image ''out.heic'' 85)) ''fallback'' = Some (PBool True) \<and>
   snd (save_image_universal plain_runtime [''in.png'' \<mapsto> sample_file]
          sample_image ''out.heic'' 85) ''out.png'' = Some (File ''PNG'' 1000000 sample_image) \<and>
   map_of (fst (save_image_universal plain_runtime [''in.png'' \<mapsto> sample_file]
                  sample_image ''out.heic'' 85)) ''original_format'' = None \<and>
   map_of (fst (save_image_universal plain_runtime [''in.png'' \<mapsto> sample_file]
                  sample_image ''out.heic'' 85)) ''final_format'' = None"
  by (simp add: heic_result is_success_def)

lemma ext_jpg: "lower (snd (splitext ''out.jpg'')) = ''.jpg''"
  by (simp add: path_defs case_defs)

lemma upper_jpg: "upper ''.jpg'' = ''.JPG''"
  by (simp add: case_defs)

lemma flatten_on_white_mode:
  "flatten_on_white env img = Inr img' \<Longrightarrow> mode img' = ''RGB''"
  by (auto simp: flatten_on_white_def convert_def paste_def image_new_def Let_def
           split: if_splits sum.splits)

lemma jpeg_encoder_accepts:
  "flatten_on_white env img = Inr img' \<Longrightarrow>
   encode env img' ''JPEG'' opts = encoder env ''JPEG'' img' opts"
  by (simp add: encode_def jpeg_rawmodes_def flatten_on_white_mode)

text \<open>
  C5. A grey image with alpha (mode LA) saved as \<^verbatim>\<open>.jpg\<close>: the image handed to the
  JPEG encoder is the white background with the source pasted over it with
  \<^verbatim>\<open>mask=None\<close>. The alpha band is not used as the mask; the background is replaced
  everywhere, also where the source is transparent.
\<close>

theorem jpeg_gray_alpha_pasted_without_mask:
  "save_image_universal plain_runtime Map.empty gray_alpha_image ''out.jpg'' 85 =
     ([(''success'', PBool True),
       (''output_path'', PStr ''out.jpg''),
       (''message'', PStr (check_mark @ '' Guardado como .JPG''))],
      [''out.jpg'' \<mapsto>
         File ''JPEG'' 1000000
           \<lparr>mode = ''RGB'', imsize = (2, 2),
            pixels = Pasted (Solid (255, 255, 255)) (Decoded ''gray.png'') None\<rparr>])"
  by (simp add: save_defs flatten_on_white_def paste_def image_new_def jpeg_rawmodes_def
        ext_jpg upper_jpg plain_runtime_def gray_alpha_image_def)

text \<open>For comparison, a truecolour image with alpha is pasted with its alpha band as the mask.\<close>

lemma jpeg_rgba_pasted_with_alpha:
  "save_image_universal plain_runtime Map.empty sample_image ''out.jpg'' 85 =
     ([(''success'', PBool True),
       (''output_path'', PStr ''out.jpg''),
       (''message'', PStr (check_mark @ '' Guardado como .JPG''))],
      [''out.jpg'' \<mapsto>
         File ''JPEG'' 1000000
           \<lparr>mode = ''RGB'', imsize = (2000, 1500),
            pixels = Pasted (Solid (255, 255, 255)) (Decoded ''in.png'')
                       (Some (LastBand (Decoded ''in.png'')))\<rparr>])"
  by (simp add: save_defs flatten_on_white_def paste_def image_new_def last_band_def
        jpeg_rawmodes_def ext_jpg upper_jpg plain_runtime_def sample_image_def)

section \<open>Preparation for PNG\<close>

lemma ext_png: "lower (snd (splitext ''out.png'')) = ''.png''"
  by (simp add: path_defs case_defs)

lemma upper_png: "upper ''.png'' = ''.PNG''"
  by (simp add: case_defs)

text \<open>
  C6, as stated, fails for a palette image: saved as \<^verbatim>\<open>.png\<close> it does not pass
  through, the file is encoded from its conversion to RGBA.
\<close>

theorem png_palette_is_converted:
  "snd (save_image_universal plain_runtime Map.empty palette_image ''out.png'' 85) ''out.png'' =
     Some (File ''PNG'' 1000000
             \<lparr>mode = ''RGBA'', imsize = (2, 2), pixels = Converted ''RGBA'' (Decoded ''pal.gif'')\<rparr>)"
  by (simp add: save_defs prepare_png_def convert_def ext_png upper_png plain_runtime_def
        palette_image_def)

text \<open>
  C6, amended. When a save to a \<^verbatim>\<open>.png\<close> path succeeds, the file written at the
  allocated path is a PNG encoded from the image itself if its mode is RGBA, RGB or L,
  and from its conversion to RGBA for every other mode, the palette mode included.
\<close>

theorem png_normalization:
  assumes "lower (snd (splitext output_path)) = ''.png''"
    and "is_success (fst (save_image_universal env fs img output_path quality))"
  shows "\<exists>n. snd (save_image_universal env fs img output_path quality) =
           fs(generate_unique_filename fs (clock env) output_path \<mapsto>
                File ''PNG'' n
                  (if mode img \<in> set [''RGBA'', ''RGB'', ''L''] then img
                   else img\<lparr>mode := ''RGBA'', pixels := Converted ''RGBA'' (pixels img)\<rparr>))"
  using assms
  by (auto simp: save_image_universal_def standard_formats_def catch_def saved_def
        then_save_def save_def encode_def prepare_png_def convert_def is_success_def
        error_result_def Let_def
      split: if_splits sum.splits)

theorem png_normalization_witness:
  "lower (snd (splitext ''out.png'')) = ''.png'' \<and>
   is_success (fst (save_image_universal plain_runtime Map.empty palette_image ''out.png'' 85)) \<and>
   (\<exists>n. snd (save_image_universal plain_runtime Map.empty palette_image ''out.png'' 85) =
      [''out.png'' \<mapsto> File ''PNG'' n
         \<lparr>mode = ''RGBA'', imsize = (2, 2), pixels = Converted ''RGBA'' (Decoded ''pal.gif'')\<rparr>])"
proof -
  have s: "is_success (fst (save_image_universal plain_runtime Map.empty palette_image ''out.png'' 85))"
    by (simp add: save_defs prepare_png_def convert_def ext_png upper_png plain_runtime_def
          palette_image_def is_success_def)
  have u: "generate_unique_filename Map.empty (clock plain_runtime) ''out.png'' = ''out.png''"
    by (simp add: generate_unique_filename_def path_exists_def)
  show ?thesis
    using ext_png s png_normalization [OF ext_png s] u
    by (simp add: palette_image_def)
qed

section \<open>Successful runs of compress_image\<close>

lemma catch_success:
  assumes "is_success (fst (catch prefix r))"
  shows "\<exists>d. fst r = Inr d \<and> is_success d \<and> catch prefix r = (d, snd r)"
  using assms
  by (cases "fst r") (simp_all add: catch_def is_success_def error_result_def)

lemma compress_image_body_success:
  assumes B: "compress_image_body env fs inp out q ns ma cb = (Inr d, fs')"
    and S: "is_success d"
  shows "\<exists>original_size img0 img save_result p compressed_size.
           getsize fs inp = Inr original_size \<and>
           image_open env fs inp = Inr img0 \<and>
           resize_step img0 ns ma = Inr img \<and>
           save_image_universal env fs img out q = (save_result, fs') \<and>
           is_success save_result \<and>
           map_of save_result ''output_path'' = Some (PStr p) \<and>
           getsize fs' p = Inr compressed_size \<and>
           map_of d ''output_path'' = Some (PStr p) \<and>
           map_of d ''compression_ratio'' = Some (compression_ratio compressed_size original_size) \<and>
           map_of d ''original_dimensions''
             = Some (PTuple [PInt (fst (imsize img0)), PInt (snd (imsize img0))]) \<and>
           map_of d ''final_dimensions''
             = Some (PTuple [PInt (fst (imsize img)), PInt (snd (imsize img))])"
proof -
  note defs = compress_image_body_def
  have n1: "notify cb [PStr ''Cargando imagen...''] = None"
    using B by (cases "notify cb [PStr ''Cargando imagen...'']") (simp_all add: defs)
  obtain osz where g: "getsize fs inp = Inr osz"
    using B n1 by (cases "getsize fs inp") (simp_all add: defs)
  obtain img0 where o: "image_open env fs inp = Inr img0"
    using B n1 g by (cases "image_open env fs inp") (simp_all add: defs)
  have n2: "notify cb [PStr ''Procesando imagen...''] = None"
    using B n1 g o by (cases "notify cb [PStr ''Procesando imagen...'']") (simp_all add: defs)
  obtain img where r: "resize_step img0 ns ma = Inr img"
    using B n1 g o n2 by (cases "resize_step img0 ns ma") (simp_all add: defs)
  have n3: "notify cb [PStr ''Guardando imagen...''] = None"
    using B n1 g o n2 r by (cases "notify cb [PStr ''Guardando imagen...'']") (simp_all add: defs)
  obtain sr fs1 where sv: "save_image_universal env fs img out q = (sr, fs1)"
    by (cases "save_image_universal env fs img out q") simp
  have ss: "is_success sr"
    using B S n1 g o n2 r n3 sv by (cases "is_success sr") (auto simp: defs is_success_def)
  obtain v where ov: "map_of sr ''output_path'' = Some v"
    using B n1 g o n2 r n3 sv ss by (cases "map_of sr ''output_path''") (simp_all add: defs)
  obtain p where vp: "v = PStr p"
    using B n1 g o n2 r n3 sv ss ov by (cases v) (simp_all add: defs)
  have f1: "fs1 = fs'"
    using B n1 g o n2 r n3 sv ss ov vp
    by (cases "getsize fs1 p"; cases "notify cb [PStr (''Compresi'' @ o_acute @ ''n completada'')]")
       (simp_all add: defs Let_def)
  obtain csz where gc: "getsize fs1 p = Inr csz"
    using B n1 g o n2 r n3 sv ss ov vp by (cases "getsize fs1 p") (simp_all add: defs)
  have n4: "notify cb [PStr (''Compresi'' @ o_acute @ ''n completada'')] = None"
    using B n1 g o n2 r n3 sv ss ov vp gc
    by (cases "notify cb [PStr (''Compresi'' @ o_acute @ ''n completada'')]")
       (simp_all add: defs Let_def)
  have d: "d = [(''success'', PBool True),
                (''original_size'', PInt (int osz)),
                (''compressed_size'', PInt (int csz)),
                (''compression_ratio'', compression_ratio csz osz),
                (''original_dimensions'', PTuple [PInt (fst (imsize img0)), PInt (snd (imsize img0))]),
                (''final_dimensions'', PTuple [PInt (fst (imsize img)), PInt (snd (imsize img))]),
                (''format'', PStr (lstrip CHR ''.'' (upper (snd (splitext p))))),
                (''output_path'', PStr p),
                (''fallback'', dict_get sr ''fallback'' (PBool False)),
                (''message'', dict_get sr ''message''
                   (PStr (check_mark @ '' Comprimido como ''
                          @ lstrip CHR ''.'' (upper (snd (splitext p))))))]"
    using B n1 g o n2 r n3 sv ss ov vp gc n4 by (simp add: defs Let_def)
  show ?thesis
    using g o r sv ss ov vp gc f1 by (simp add: d)
qed

lemma compress_image_success:
  assumes "is_success (fst (compress_image env fs inp out q ns ma cb))"
  shows "\<exists>original_size img0 img save_result p compressed_size.
           getsize fs inp = Inr original_size \<and>
           image_open env fs inp = Inr img0 \<and>
           resize_step img0 ns ma = Inr img \<and>
           save_image_universal env fs img out q
             = (save_result, snd (compress_image env fs inp out q ns ma cb)) \<and>
           is_success save_result \<and>
           map_of save_result ''output_path'' = Some (PStr p) \<and>
           getsize (snd (compress_image env fs inp out q ns ma cb)) p = Inr compressed_size \<and>
           map_of (fst (compress_image env fs inp out q ns ma cb)) ''output_path'' = Some (PStr p) \<and>
           map_of (fst (compress_image env fs inp out q ns ma cb)) ''compression_ratio''
             = Some (compression_ratio compressed_size original_size) \<and>
           map_of (fst (compress_image env fs inp out q ns ma cb)) ''original_dimensions''
             = Some (PTuple [PInt (fst (imsize img0)), PInt (snd (imsize img0))]) \<and>
           map_of (fst (compress_image env fs inp out q ns ma cb)) ''final_dimensions''
             = Some (PTuple [PInt (fst (imsize img)), PInt (snd (imsize img))])"
proof -
  let ?b = "compress_image_body env fs inp out q ns ma cb"
  from catch_success [of "'' Error: ''" ?b] assms
  obtain d where d: "fst ?b = Inr d" "is_success d" "compress_image env fs inp out q ns ma cb = (d, snd ?b)"
    by (auto simp: compress_image_def)
  have "?b = (Inr d, snd ?b)" using d(1) by (cases ?b) simp
  from compress_image_body_success [OF this d(2)] show ?thesis
    by (simp add: d(3))
qed

section \<open>Sizes after thumbnail and resize\<close>

lemma resize_size: "resize img sz = Inr img' \<Longrightarrow> imsize img' = sz"
  by (auto simp: resize_def split: if_splits)

lemma round_aspect_le:
  assumes "number \<le> real_of_int n" and "1 \<le> n"
  shows "round_aspect number key \<le> n"
proof -
  have c: "\<lceil>number\<rceil> \<le> n" using assms(1) by (simp add: ceiling_le_iff)
  have "\<lfloor>number\<rfloor> \<le> \<lceil>number\<rceil>" by (rule floor_le_ceiling)
  with c have f: "\<lfloor>number\<rfloor> \<le> n" by linarith
  from c f assms(2) show ?thesis by (simp add: round_aspect_def)
qed

lemma wide_box:
  fixes w h x y :: real
  assumes "0 < w" "0 < h" "0 < y" "w / h \<le> x / y" "h \<le> y"
  shows "w \<le> x"
proof -
  have "w * y \<le> x * h" using assms by (simp add: field_simps)
  moreover have "w * h \<le> w * y" using assms by (simp add: mult_left_mono)
  ultimately have "w * h \<le> x * h" by linarith
  then show ?thesis using assms(2) by simp
qed

lemma tall_box:
  fixes w h x y :: real
  assumes "0 < w" "0 < h" "0 < y" "x / y < w / h" "w \<le> x"
  shows "h < y"
proof -
  have "x * h < w * y" using assms by (simp add: field_simps)
  moreover have "w * h \<le> x * h" using assms by (simp add: mult_right_mono)
  ultimately have "w * h < w * y" by linarith
  then show ?thesis using assms(1) by simp
qed

lemma preserve_aspect_ratio_bound:
  assumes P: "preserve_aspect_ratio (w, h) (x, y) = Inr (Some (x', y'))"
    and w: "1 \<le> w" and h: "1 \<le> h" and y: "0 \<le> y"
  shows "x' \<le> w \<and> y' \<le> h"
proof -
  let ?a = "real_of_int w / real_of_int h"
  have nb: "\<not> (w \<le> x \<and> h \<le> y)" and y0: "y \<noteq> 0"
    using P h by (auto simp: preserve_aspect_ratio_def Let_def split: if_splits)
  have yp: "0 < y" using y y0 by simp
  have rw: "0 < real_of_int w" and rh: "0 < real_of_int h" and ry: "0 < real_of_int y"
    using w h yp by simp_all
  show ?thesis
  proof (cases "?a \<le> real_of_int x / real_of_int y")
    case True
    then have eq: "x' = round_aspect (real_of_int y * ?a) (\<lambda>n. \<bar>?a - real_of_int n / real_of_int y\<bar>)"
      and y': "y' = y"
      using P h nb y0 by (auto simp: preserve_aspect_ratio_def Let_def split: if_splits)
    have "\<not> h \<le> y"
    proof
      assume "h \<le> y"
      then have "real_of_int w \<le> real_of_int x"
        using wide_box [OF rw rh ry True] by simp
      with \<open>h \<le> y\<close> nb show False by simp
    qed
    then have yh: "y \<le> h" by simp
    have "real_of_int y * real_of_int w \<le> real_of_int h * real_of_int w"
      using yh rw by (simp add: mult_right_mono)
    then have "real_of_int y * ?a \<le> real_of_int w"
      using rh by (simp add: field_simps)
    then have "x' \<le> w" unfolding eq using w by (rule round_aspect_le)
    with yh y' show ?thesis by simp
  next
    case False
    then have lt: "real_of_int x / real_of_int y < ?a" by simp
    have eq: "y' = round_aspect (real_of_int x / ?a)
                     (\<lambda>n. if n = 0 then 0 else \<bar>?a - real_of_int x / real_of_int n\<bar>)"
      and x': "x' = x"
      using P h nb y0 False by (auto simp: preserve_aspect_ratio_def Let_def split: if_splits)
    have "\<not> w \<le> x"
    proof
      assume "w \<le> x"
      then have "real_of_int h < real_of_int y"
        using tall_box [OF rw rh ry lt] by simp
      with \<open>w \<le> x\<close> nb show False by simp
    qed
    then have xw: "x \<le> w" by simp
    have "real_of_int x * real_of_int h \<le> real_of_int w * real_of_int h"
      using xw rh by (simp add: mult_right_mono)
    then have "real_of_int x / ?a \<le> real_of_int h"
      using rw rh by (simp add: field_simps)
    then have "y' \<le> h" unfolding eq using h by (rule round_aspect_le)
    with xw x' show ?thesis by simp
  qed
qed

lemma thumbnail_no_upscale:
  assumes T: "thumbnail img (x, y) = Inr img'"
    and w: "1 \<le> fst (imsize img)" and h: "1 \<le> snd (imsize img)" and y: "0 \<le> y"
  shows "fst (imsize img') \<le> fst (imsize img) \<and> snd (imsize img') \<le> snd (imsize img)"
proof (cases "preserve_aspect_ratio (imsize img) (x, y)")
  case (Inl e)
  with T show ?thesis by (simp add: thumbnail_def)
next
  case (Inr r)
  show ?thesis
  proof (cases r)
    case None
    with Inr T show ?thesis by (simp add: thumbnail_def)
  next
    case (Some sz)
    obtain x' y' where sz: "sz = (x', y')" by (cases sz)
    have "resize img (x', y') = Inr img'"
      using T Inr Some sz by (simp add: thumbnail_def)
    then have "imsize img' = (x', y')" by (rule resize_size)
    moreover have "x' \<le> fst (imsize img) \<and> y' \<le> snd (imsize img)"
      using preserve_aspect_ratio_bound [of "fst (imsize img)" "snd (imsize img)" x y x' y']
        Inr Some sz w h y by simp
    ultimately show ?thesis by simp
  qed
qed

lemma round_aspect_near:
  "round_aspect number key = 1 \<or> \<bar>real_of_int (round_aspect number key) - number\<bar> < 1"
proof -
  have "\<bar>real_of_int \<lfloor>number\<rfloor> - number\<bar> < 1" "\<bar>real_of_int \<lceil>number\<rceil> - number\<bar> < 1"
    by linarith+
  then show ?thesis
    by (auto simp: round_aspect_def max_def)
qed

lemma scale_close:
  fixes r w h y :: real
  assumes "0 < h" "\<bar>r - y * (w / h)\<bar> < 1"
  shows "\<bar>r * h - y * w\<bar> < h"
proof -
  have "r * h - y * w = h * (r - y * (w / h))"
    using assms(1) by (simp add: field_simps)
  then have "\<bar>r * h - y * w\<bar> = h * \<bar>r - y * (w / h)\<bar>"
    using assms(1) by (simp add: abs_mult)
  also have "\<dots> < h * 1"
    using assms by (intro mult_strict_left_mono) simp_all
  finally show ?thesis by simp
qed

lemma preserve_aspect_ratio_proportion:
  assumes P: "preserve_aspect_ratio (w, h) (x, y) = Inr (Some (x', y'))"
    and w: "1 \<le> w" and h: "1 \<le> h"
  shows "x' = 1 \<or> y' = 1 \<or> \<bar>x' * h - y' * w\<bar> < max w h"
proof -
  let ?a = "real_of_int w / real_of_int h"
  have rw: "0 < real_of_int w" and rh: "0 < real_of_int h"
    using w h by simp_all
  have a0: "?a \<noteq> 0" using rw rh by simp
  show ?thesis
  proof (cases "?a \<le> real_of_int x / real_of_int y")
    case True
    then have eq: "x' = round_aspect (real_of_int y * ?a) (\<lambda>n. \<bar>?a - real_of_int n / real_of_int y\<bar>)"
      and y': "y' = y"
      using P by (auto simp: preserve_aspect_ratio_def Let_def split: if_splits)
    from round_aspect_near [of "real_of_int y * ?a" "\<lambda>n. \<bar>?a - real_of_int n / real_of_int y\<bar>"]
    have "x' = 1 \<or> \<bar>real_of_int x' - real_of_int y * ?a\<bar> < 1"
      unfolding eq .
    then show ?thesis
    proof
      assume "x' = 1" then show ?thesis by simp
    next
      assume "\<bar>real_of_int x' - real_of_int y * ?a\<bar> < 1"
      from scale_close [OF rh this]
      have "real_of_int \<bar>x' * h - y * w\<bar> < real_of_int h" by simp
      then have "\<bar>x' * h - y * w\<bar> < h" by linarith
      then have "\<bar>x' * h - y * w\<bar> < max w h" by linarith
      then show ?thesis using y' by simp
    qed
  next
    case False
    then have eq: "y' = round_aspect (real_of_int x / ?a)
                     (\<lambda>n. if n = 0 then 0 else \<bar>?a - real_of_int x / real_of_int n\<bar>)"
      and x': "x' = x"
      using P by (auto simp: preserve_aspect_ratio_def Let_def split: if_splits)
    from round_aspect_near [of "real_of_int x / ?a"
            "\<lambda>n. if n = 0 then 0 else \<bar>?a - real_of_int x / real_of_int n\<bar>"]
    have "y' = 1 \<or> \<bar>real_of_int y' - real_of_int x / ?a\<bar> < 1"
      unfolding eq .
    then show ?thesis
    proof
      assume "y' = 1" then show ?thesis by simp
    next
      assume "\<bar>real_of_int y' - real_of_int x / ?a\<bar> < 1"
      then have "\<bar>real_of_int y' - real_of_int x * (real_of_int h / real_of_int w)\<bar> < 1"
        by simp
      from scale_close [OF rw this]
      have "real_of_int \<bar>y' * w - x * h\<bar> < real_of_int w" by simp
      then have "\<bar>y' * w - x * h\<bar> < w" by linarith
      then have "\<bar>x * h - y' * w\<bar> < max w h" by linarith
      then show ?thesis using x' by simp
    qed
  qed
qed

lemma thumbnail_proportion:
  assumes T: "thumbnail img (x, y) = Inr img'"
    and w: "1 \<le> fst (imsize img)" and h: "1 \<le> snd (imsize img)"
  shows "fst (imsize img') = 1 \<or> snd (imsize img') = 1 \<or>
         \<bar>fst (imsize img') * snd (imsize img) - snd (imsize img') * fst (imsize img)\<bar>
           < max (fst (imsize img)) (snd (imsize img))"
proof (cases "preserve_aspect_ratio (imsize img) (x, y)")
  case (Inl e)
  with T show ?thesis by (simp add: thumbnail_def)
next
  case (Inr r)
  show ?thesis
  proof (cases r)
    case None
    with Inr T have "img' = img" by (simp add: thumbnail_def)
    moreover have "0 < max (fst (imsize img)) (snd (imsize img))" using w by linarith
    ultimately show ?thesis by (simp add: mult.commute)
  next
    case (Some sz)
    obtain x' y' where sz: "sz = (x', y')" by (cases sz)
    have "resize img (x', y') = Inr img'"
      using T Inr Some sz by (simp add: thumbnail_def)
    then have "imsize img' = (x', y')" by (rule resize_size)
    moreover have "x' = 1 \<or> y' = 1 \<or>
        \<bar>x' * snd (imsize img) - y' * fst (imsize img)\<bar> < max (fst (imsize img)) (snd (imsize img))"
      using preserve_aspect_ratio_proportion [of "fst (imsize img)" "snd (imsize img)" x y x' y']
        Inr Some sz w h by simp
    ultimately show ?thesis by simp
  qed
qed

section \<open>Ratio, sizes and the frame of the estimate\<close>

lemmas compress_defs =
  compress_image_def compress_image_body_def notify_def getsize_def image_open_def
  resize_step_def thumbnail_def preserve_aspect_ratio_def round_aspect_def resize_def
  flatten_on_white_def paste_def image_new_def last_band_def jpeg_rawmodes_def
  is_success_def dict_get_def compression_ratio_def
  plain_runtime_def sample_image_def sample_file_def

lemma stem_jpg: "lstrip CHR ''.'' (upper (snd (splitext ''out.jpg''))) = ''JPG''"
  by (simp add: path_defs case_defs)

lemma compress_sample:
  "compress_image plain_runtime [''in.png'' \<mapsto> sample_file] ''in.png'' ''out.jpg'' 85 None True None =
     ([(''success'', PBool True),
       (''original_size'', PInt 5000000),
       (''compressed_size'', PInt 1000000),
       (''compression_ratio'', PFloat 80),
       (''original_dimensions'', PTuple [PInt 2000, PInt 1500]),
       (''final_dimensions'', PTuple [PInt 2000, PInt 1500]),
       (''format'', PStr ''JPG''),
       (''output_path'', PStr ''out.jpg''),
       (''fallback'', PBool False),
       (''message'', PStr (check_mark @ '' Guardado como .JPG''))],
      [''in.png'' \<mapsto> sample_file,
       ''out.jpg'' \<mapsto>
         File ''JPEG'' 1000000
           \<lparr>mode = ''RGB'', imsize = (2000, 1500),
            pixels = Pasted (Solid (255, 255, 255)) (Decoded ''in.png'')
                       (Some (LastBand (Decoded ''in.png'')))\<rparr>])"
  by (simp add: compress_defs save_defs ext_jpg upper_jpg stem_jpg)

lemma compress_sample_thumbnail:
  "fst (compress_image plain_runtime [''in.png'' \<mapsto> sample_file] ''in.png'' ''out.jpg'' 85
          (Some (1000, 1000)) True None) =
     [(''success'', PBool True),
      (''original_size'', PInt 5000000),
      (''compressed_size'', PInt 1000000),
      (''compression_ratio'', PFloat 80),
      (''original_dimensions'', PTuple [PInt 2000, PInt 1500]),
      (''final_dimensions'', PTuple [PInt 1000, PInt 750]),
      (''format'', PStr ''JPG''),
      (''output_path'', PStr ''out.jpg''),
      (''fallback'', PBool False),
      (''message'', PStr (check_mark @ '' Guardado como .JPG''))]"
  by (simp add: compress_defs save_defs ext_jpg upper_jpg stem_jpg)

lemma compress_sample_resize:
  "fst (compress_image plain_runtime [''in.png'' \<mapsto> sample_file] ''in.png'' ''out.jpg'' 85
          (Some (1000, 1000)) False None) =
     [(''success'', PBool True),
      (''original_size'', PInt 5000000),
      (''compressed_size'', PInt 1000000),
      (''compression_ratio'', PFloat 80),
      (''original_dimensions'', PTuple [PInt 2000, PInt 1500]),
      (''final_dimensions'', PTuple [PInt 1000, PInt 1000]),
      (''format'', PStr ''JPG''),
      (''output_path'', PStr ''out.jpg''),
      (''fallback'', PBool False),
      (''message'', PStr (check_mark @ '' Guardado como .JPG''))]"
  by (simp add: compress_defs save_defs ext_jpg upper_jpg stem_jpg)

lemma compress_negative_height:
  "fst (compress_image plain_runtime [''in.png'' \<mapsto> sample_file] ''in.png'' ''out.jpg'' 85
          (Some (4000, - 1)) True None) =
     [(''success'', PBool True),
      (''original_size'', PInt 5000000),
      (''compressed_size'', PInt 1000000),
      (''compression_ratio'', PFloat 80),
      (''original_dimensions'', PTuple [PInt 2000, PInt 1500]),
      (''final_dimensions'', PTuple [PInt 4000, PInt 3000]),
      (''format'', PStr ''JPG''),
      (''output_path'', PStr ''out.jpg''),
      (''fallback'', PBool False),
      (''message'', PStr (check_mark @ '' Guardado como .JPG''))]"
  by (simp add: compress_defs save_defs ext_jpg upper_jpg stem_jpg)

lemma estimate_sample:
  "fst (estimate_compressed_size plain_runtime [''in.png'' \<mapsto> sample_file] ''in.png'' 85 None) =
     [(''success'', PBool True),
      (''estimated_size'', PInt 1000000),
      (''original_size'', PInt 5000000),
      (''compression_ratio'', PFloat 80),
      (''estimated_size_mb'', PFloat (round2 (1000000 / (1024 * 1024))))]"
  by (simp add: estimate_compressed_size_def estimate_body_def encode_def compress_defs)

lemma estimate_empty:
  "fst (estimate_compressed_size plain_runtime [''empty.png'' \<mapsto> File ''PNG'' 0 sample_image]
          ''empty.png'' 85 None) =
     [(''success'', PBool True),
      (''estimated_size'', PInt 1000000),
      (''original_size'', PInt 0),
      (''compression_ratio'', PInt 0),
      (''estimated_size_mb'', PFloat (round2 (1000000 / (1024 * 1024))))]"
  by (simp add: estimate_compressed_size_def estimate_body_def encode_def compress_defs)

lemma estimate_body_fs: "snd (estimate_body env fs image_path quality new_size) = fs"
  by (simp add: estimate_body_def split: sum.splits option.splits)

text \<open>
  C9. \<^verbatim>\<open>estimate_compressed_size\<close> returns the file system it was given: it opens and
  measures the source file and encodes into a buffer; no file is created, changed or
  removed, whatever the path, the quality and the target dimensions, and whether it
  succeeds or not.
\<close>

theorem estimate_leaves_files:
  "snd (estimate_compressed_size env fs image_path quality new_size) = fs"
proof (cases "estimate_body env fs image_path quality new_size")
  case (Pair r fs1)
  with estimate_body_fs [of env fs image_path quality new_size] have "fs1 = fs" by simp
  with Pair show ?thesis
    by (cases r) (simp_all add: estimate_compressed_size_def)
qed

lemma estimate_success:
  assumes "is_success (fst (estimate_compressed_size env fs image_path quality new_size))"
  shows "\<exists>original_size estimated_size.
           getsize fs image_path = Inr original_size \<and>
           map_of (fst (estimate_compressed_size env fs image_path quality new_size))
             ''estimated_size'' = Some (PInt (int estimated_size)) \<and>
           map_of (fst (estimate_compressed_size env fs image_path quality new_size))
             ''compression_ratio'' = Some (compression_ratio estimated_size original_size)"
proof -
  let ?b = "estimate_body env fs image_path quality new_size"
  obtain r fs1 where b: "?b = (r, fs1)" by (cases ?b)
  obtain d where r: "r = Inr d" and sd: "is_success d"
    using assms b by (cases r) (simp_all add: estimate_compressed_size_def is_success_def)
  note defs = estimate_body_def
  have B: "?b = (Inr d, fs1)" using b r by simp
  obtain img0 where o: "image_open env fs image_path = Inr img0"
    using B by (cases "image_open env fs image_path") (simp_all add: defs)
  let ?t = "case new_size of None \<Rightarrow> Inr img0
            | Some sz \<Rightarrow> if sz = (0, 0) then Inr img0 else thumbnail img0 sz"
  obtain img1 where t: "?t = Inr img1"
    using B o by (cases ?t) (simp_all add: defs)
  obtain img2 where f: "flatten_on_white env img1 = Inr img2"
    using B o t by (cases "flatten_on_white env img1") (simp_all add: defs)
  obtain es where e: "encode env img2 ''JPEG'' [(''quality'', PInt quality), (''optimize'', PBool True)] = Inr es"
    using B o t f
    by (cases "encode env img2 ''JPEG'' [(''quality'', PInt quality), (''optimize'', PBool True)]")
       (simp_all add: defs)
  obtain os where g: "getsize fs image_path = Inr os"
    using B o t f e by (cases "getsize fs image_path") (simp_all add: defs)
  have "fst (estimate_compressed_size env fs image_path quality new_size) =
          [(''success'', PBool True),
           (''estimated_size'', PInt (int es)),
           (''original_size'', PInt (int os)),
           (''compression_ratio'', compression_ratio es os),
           (''estimated_size_mb'', PFloat (round2 (real es / (1024 * 1024))))]"
    using o t f e g by (simp add: estimate_compressed_size_def defs)
  with g show ?thesis by simp
qed

text \<open>
  C7. When \<^verbatim>\<open>compress_image\<close> succeeds, the ratio it reports is
  \<open>(1 - compressed_size / original_size) * 100\<close> for the size of the source file before
  the run and the size of the file at the returned output path after it, and it is 0
  when the source file has 0 bytes. The same holds for \<^verbatim>\<open>estimate_compressed_size\<close>
  with the length of the buffer as the compressed size. The division is exact here.
\<close>

theorem compression_ratio_reported:
  "(is_success (fst (compress_image env fs inp out q ns ma cb)) \<longrightarrow>
      (\<exists>original_size compressed_size p.
         getsize fs inp = Inr original_size \<and>
         map_of (fst (compress_image env fs inp out q ns ma cb)) ''output_path'' = Some (PStr p) \<and>
         getsize (snd (compress_image env fs inp out q ns ma cb)) p = Inr compressed_size \<and>
         map_of (fst (compress_image env fs inp out q ns ma cb)) ''compression_ratio'' =
           Some (if 0 < original_size
                 then PFloat ((1 - real compressed_size / real original_size) * 100)
                 else PInt 0))) \<and>
   (is_success (fst (estimate_compressed_size env fs image_path quality new_size)) \<longrightarrow>
      (\<exists>original_size estimated_size.
         getsize fs image_path = Inr original_size \<and>
         map_of (fst (estimate_compressed_size env fs image_path quality new_size))
           ''estimated_size'' = Some (PInt (int estimated_size)) \<and>
         map_of (fst (estimate_compressed_size env fs image_path quality new_size))
           ''compression_ratio'' =
           Some (if 0 < original_size
                 then PFloat ((1 - real estimated_size / real original_size) * 100)
                 else PInt 0)))"
proof (intro conjI impI)
  assume "is_success (fst (compress_image env fs inp out q ns ma cb))"
  from compress_image_success [OF this]
  show "\<exists>original_size compressed_size p.
         getsize fs inp = Inr original_size \<and>
         map_of (fst (compress_image env fs inp out q ns ma cb)) ''output_path'' = Some (PStr p) \<and>
         getsize (snd (compress_image env fs inp out q ns ma cb)) p = Inr compressed_size \<and>
         map_of (fst (compress_image env fs inp out q ns ma cb)) ''compression_ratio'' =
           Some (if 0 < original_size
                 then PFloat ((1 - real compressed_size / real original_size) * 100)
                 else PInt 0)"
    unfolding compression_ratio_def by blast
next
  assume "is_success (fst (estimate_compressed_size env fs image_path quality new_size))"
  from estimate_success [OF this]
  show "\<exists>original_size estimated_size.
         getsize fs image_path = Inr original_size \<and>
         map_of (fst (estimate_compressed_size env fs image_path quality new_size))
           ''estimated_size'' = Some (PInt (int estimated_size)) \<and>
         map_of (fst (estimate_compressed_size env fs image_path quality new_size))
           ''compression_ratio'' =
           Some (if 0 < original_size
                 then PFloat ((1 - real estimated_size / real original_size) * 100)
                 else PInt 0)"
    unfolding compression_ratio_def by blast
qed

text \<open>
  C8, as stated, fails for a negative requested height: \<^verbatim>\<open>compress_image\<close> hands
  \<^verbatim>\<open>new_size\<close> to \<^verbatim>\<open>thumbnail\<close> as it is, and with aspect preservation the
  request \<open>(4000, -1)\<close> on the 2000 by 1500 image succeeds with the final dimensions
  4000 by 3000, twice the original ones.
\<close>

theorem negative_height_enlarges:
  "is_success (fst (compress_image plain_runtime [''in.png'' \<mapsto> sample_file]
                      ''in.png'' ''out.jpg'' 85 (Some (4000, - 1)) True None)) \<and>
   map_of (fst (compress_image plain_runtime [''in.png'' \<mapsto> sample_file]
                  ''in.png'' ''out.jpg'' 85 (Some (4000, - 1)) True None)) ''original_dimensions''
     = Some (PTuple [PInt 2000, PInt 1500]) \<and>
   map_of (fst (compress_image plain_runtime [''in.png'' \<mapsto> sample_file]
                  ''in.png'' ''out.jpg'' 85 (Some (4000, - 1)) True None)) ''final_dimensions''
     = Some (PTuple [PInt 4000, PInt 3000])"
  by (simp add: compress_negative_height is_success_def)

text \<open>
  C8, amended. When \<^verbatim>\<open>compress_image\<close> succeeds for requested dimensions \<open>(x, y)\<close>
  on an image of positive width and height: with aspect preservation and a height
  \<open>y\<close> that is not negative, neither final dimension exceeds the original one, and
  the proportions are kept up to the rounding of one dimension (or a dimension is 1);
  without aspect preservation, and for a request other than \<open>(0, 0)\<close>, the final
  dimensions are exactly \<open>(x, y)\<close>.
\<close>

theorem resize_dimensions:
  assumes "is_success (fst (compress_image env fs inp out q (Some (x, y)) ma cb))"
  shows "\<exists>img0 w h w' h'.
           image_open env fs inp = Inr img0 \<and> imsize img0 = (w, h) \<and>
           map_of (fst (compress_image env fs inp out q (Some (x, y)) ma cb))
             ''original_dimensions'' = Some (PTuple [PInt w, PInt h]) \<and>
           map_of (fst (compress_image env fs inp out q (Some (x, y)) ma cb))
             ''final_dimensions'' = Some (PTuple [PInt w', PInt h']) \<and>
           (ma \<and> 1 \<le> w \<and> 1 \<le> h \<and> 0 \<le> y \<longrightarrow> w' \<le> w \<and> h' \<le> h) \<and>
           (ma \<and> 1 \<le> w \<and> 1 \<le> h \<longrightarrow> w' = 1 \<or> h' = 1 \<or> \<bar>w' * h - h' * w\<bar> < max w h) \<and>
           (\<not> ma \<and> (x, y) \<noteq> (0, 0) \<longrightarrow> w' = x \<and> h' = y)"
proof -
  from compress_image_success [OF assms]
  obtain img0 img where o: "image_open env fs inp = Inr img0"
    and r: "resize_step img0 (Some (x, y)) ma = Inr img"
    and od: "map_of (fst (compress_image env fs inp out q (Some (x, y)) ma cb))
               ''original_dimensions''
             = Some (PTuple [PInt (fst (imsize img0)), PInt (snd (imsize img0))])"
    and fd: "map_of (fst (compress_image env fs inp out q (Some (x, y)) ma cb))
               ''final_dimensions''
             = Some (PTuple [PInt (fst (imsize img)), PInt (snd (imsize img))])"
    by blast
  let ?w = "fst (imsize img0)" and ?h = "snd (imsize img0)"
  let ?w' = "fst (imsize img)" and ?h' = "snd (imsize img)"
  have a: "ma \<and> 1 \<le> ?w \<and> 1 \<le> ?h \<and> 0 \<le> y \<longrightarrow> ?w' \<le> ?w \<and> ?h' \<le> ?h"
  proof (cases "(x, y) = (0, 0)")
    case True
    with r show ?thesis by (simp add: resize_step_def)
  next
    case False
    with r show ?thesis
      using thumbnail_no_upscale [of img0 x y img] by (auto simp: resize_step_def)
  qed
  have b: "ma \<and> 1 \<le> ?w \<and> 1 \<le> ?h \<longrightarrow>
             ?w' = 1 \<or> ?h' = 1 \<or> \<bar>?w' * ?h - ?h' * ?w\<bar> < max ?w ?h"
  proof (cases "(x, y) = (0, 0)")
    case True
    with r have "img = img0" by (simp add: resize_step_def)
    then show ?thesis by (auto simp: mult.commute)
  next
    case False
    with r show ?thesis
      using thumbnail_proportion [of img0 x y img] by (auto simp: resize_step_def)
  qed
  have c: "\<not> ma \<and> (x, y) \<noteq> (0, 0) \<longrightarrow> ?w' = x \<and> ?h' = y"
    using r resize_size [of img0 "(x, y)" img] by (auto simp: resize_step_def)
  from o od fd a b c show ?thesis
    by (intro exI [of _ img0] exI [of _ ?w] exI [of _ ?h] exI [of _ ?w'] exI [of _ ?h']) simp
qed

lemma resize_step_zero: "resize_step img (Some (0, 0)) ma = resize_step img None ma"
  by (simp add: resize_step_def)

text \<open>
  C10. Target dimensions \<open>(0, 0)\<close> give the same result and the same file system as no
  target dimensions, in \<^verbatim>\<open>compress_image\<close> and in \<^verbatim>\<open>estimate_compressed_size\<close>;
  a successful \<^verbatim>\<open>compress_image\<close> then reports the size of the decoded image as the
  original and as the final dimensions.
\<close>

theorem zero_size_disables_resize:
  "compress_image env fs inp out q (Some (0, 0)) ma cb = compress_image env fs inp out q None ma cb \<and>
   estimate_compressed_size env fs image_path quality (Some (0, 0))
     = estimate_compressed_size env fs image_path quality None \<and>
   (is_success (fst (compress_image env fs inp out q (Some (0, 0)) ma cb)) \<longrightarrow>
      (\<exists>img0. image_open env fs inp = Inr img0 \<and>
         map_of (fst (compress_image env fs inp out q (Some (0, 0)) ma cb)) ''original_dimensions''
           = Some (PTuple [PInt (fst (imsize img0)), PInt (snd (imsize img0))]) \<and>
         map_of (fst (compress_image env fs inp out q (Some (0, 0)) ma cb)) ''final_dimensions''
           = Some (PTuple [PInt (fst (imsize img0)), PInt (snd (imsize img0))])))"
proof (intro conjI impI)
  show "compress_image env fs inp out q (Some (0, 0)) ma cb
          = compress_image env fs inp out q None ma cb"
    unfolding compress_image_def compress_image_body_def resize_step_zero ..
  show "estimate_compressed_size env fs image_path quality (Some (0, 0))
          = estimate_compressed_size env fs image_path quality None"
    by (simp add: estimate_compressed_size_def estimate_body_def cong: sum.case_cong)
next
  assume "is_success (fst (compress_image env fs inp out q (Some (0, 0)) ma cb))"
  from compress_image_success [OF this]
  obtain img0 img where o: "image_open env fs inp = Inr img0"
    and r: "resize_step img0 (Some (0, 0)) ma = Inr img"
    and od: "map_of (fst (compress_image env fs inp out q (Some (0, 0)) ma cb))
               ''original_dimensions''
             = Some (PTuple [PInt (fst (imsize img0)), PInt (snd (imsize img0))])"
    and fd: "map_of (fst (compress_image env fs inp out q (Some (0, 0)) ma cb))
               ''final_dimensions''
             = Some (PTuple [PInt (fst (imsize img)), PInt (snd (imsize img))])"
    by blast
  from r have "img = img0" by (simp add: resize_step_def)
  with o od fd
  show "\<exists>img0. image_open env fs inp = Inr img0 \<and>
         map_of (fst (compress_image env fs inp out q (Some (0, 0)) ma cb)) ''original_dimensions''
           = Some (PTuple [PInt (fst (imsize img0)), PInt (snd (imsize img0))]) \<and>
         map_of (fst (compress_image env fs inp out q (Some (0, 0)) ma cb)) ''final_dimensions''
           = Some (PTuple [PInt (fst (imsize img0)), PInt (snd (imsize img0))])"
    by auto
qed

theorem estimate_leaves_files_witness:
  "is_success (fst (estimate_compressed_size plain_runtime [''in.png'' \<mapsto> sample_file]
                      ''in.png'' 85 None)) \<and>
   snd (estimate_compressed_size plain_runtime [''in.png'' \<mapsto> sample_file] ''in.png'' 85 None)
     = [''in.png'' \<mapsto> sample_file]"
  using estimate_leaves_files [of plain_runtime "[''in.png'' \<mapsto> sample_file]" "''in.png''" 85 None]
  by (simp add: estimate_sample is_success_def)

theorem compression_ratio_reported_witness:
  "is_success (fst (compress_image plain_runtime [''in.png'' \<mapsto> sample_file]
                      ''in.png'' ''out.jpg'' 85 None True None)) \<and>
   map_of (fst (compress_image plain_runtime [''in.png'' \<mapsto> sample_file]
                  ''in.png'' ''out.jpg'' 85 None True None)) ''compression_ratio''
     = Some (PFloat ((1 - 1000000 / 5000000) * 100)) \<and>
   is_success (fst (estimate_compressed_size plain_runtime
                      [''empty.png'' \<mapsto> File ''PNG'' 0 sample_image] ''empty.png'' 85 None)) \<and>
   map_of (fst (estimate_compressed_size plain_runtime
                  [''empty.png'' \<mapsto> File ''PNG'' 0 sample_image] ''empty.png'' 85 None))
     ''compression_ratio'' = Some (PInt 0)"
  using compression_ratio_reported
          [where env = plain_runtime and fs = "[''in.png'' \<mapsto> sample_file]"
             and inp = "''in.png''" and out = "''out.jpg''" and q = 85 and ns = None
             and ma = True and cb = None]
        compression_ratio_reported
          [where env = plain_runtime and fs = "[''empty.png'' \<mapsto> File ''PNG'' 0 sample_image]"
             and image_path = "''empty.png''" and quality = 85 and new_size = None]
  by (simp add: compress_sample estimate_empty is_success_def)

theorem resize_dimensions_witness:
  "is_success (fst (compress_image plain_runtime [''in.png'' \<mapsto> sample_file]
                      ''in.png'' ''out.jpg'' 85 (Some (1000, 1000)) True None)) \<and>
   map_of (fst (compress_image plain_runtime [''in.png'' \<mapsto> sample_file]
                  ''in.png'' ''out.jpg'' 85 (Some (1000, 1000)) True None)) ''final_dimensions''
     = Some (PTuple [PInt 1000, PInt 750]) \<and>
   is_success (fst (compress_image plain_runtime [''in.png'' \<mapsto> sample_file]
                      ''in.png'' ''out.jpg'' 85 (Some (1000, 1000)) False None)) \<and>
   map_of (fst (compress_image plain_runtime [''in.png'' \<mapsto> sample_file]
                  ''in.png'' ''out.jpg'' 85 (Some (1000, 1000)) False None)) ''final_dimensions''
     = Some (PTuple [PInt 1000, PInt 1000])"
proof -
  have t: "is_success (fst (compress_image plain_runtime [''in.png'' \<mapsto> sample_file]
                      ''in.png'' ''out.jpg'' 85 (Some (1000, 1000)) True None))"
    by (simp add: compress_sample_thumbnail is_success_def)
  have f: "is_success (fst (compress_image plain_runtime [''in.png'' \<mapsto> sample_file]
                      ''in.png'' ''out.jpg'' 85 (Some (1000, 1000)) False None))"
    by (simp add: compress_sample_resize is_success_def)
  show ?thesis
    using t f resize_dimensions [OF t] resize_dimensions [OF f]
    by (simp add: compress_sample_thumbnail compress_sample_resize)
qed

theorem zero_size_disables_resize_witness:
  "is_success (fst (compress_image plain_runtime [''in.png'' \<mapsto> sample_file]
                      ''in.png'' ''out.jpg'' 85 (Some (0, 0)) True None)) \<and>
   map_of (fst (compress_image plain_runtime [''in.png'' \<mapsto> sample_file]
                  ''in.png'' ''out.jpg'' 85 (Some (0, 0)) True None)) ''final_dimensions''
     = Some (PTuple [PInt 2000, PInt 1500])"
  using zero_size_disables_resize
          [where env = plain_runtime and fs = "[''in.png'' \<mapsto> sample_file]"
             and inp = "''in.png''" and out = "''out.jpg''" and q = 85 and ma = True and cb = None]
  by (simp add: compress_sample is_success_def)

section \<open>The batch\<close>

lemma batch_loop_acc:
  "batch_loop item fs i ps acc =
     (acc @ fst (batch_loop item fs i ps []), snd (batch_loop item fs i ps []))"
proof (induction ps arbitrary: fs i acc)
  case Nil
  show ?case by simp
next
  case (Cons p ps)
  obtain r fs1 where it: "item fs i p = (r, fs1)" by (cases "item fs i p")
  have "batch_loop item fs i (p # ps) acc = batch_loop item fs1 (i + 1) ps (acc @ [r])"
    using it by simp
  also have "\<dots> = ((acc @ [r]) @ fst (batch_loop item fs1 (i + 1) ps []),
                   snd (batch_loop item fs1 (i + 1) ps []))"
    by (rule Cons.IH)
  finally have a: "batch_loop item fs i (p # ps) acc =
      (acc @ r # fst (batch_loop item fs1 (i + 1) ps []), snd (batch_loop item fs1 (i + 1) ps []))"
    by simp
  have "batch_loop item fs i (p # ps) [] = batch_loop item fs1 (i + 1) ps [r]"
    using it by simp
  also have "\<dots> = ([r] @ fst (batch_loop item fs1 (i + 1) ps []),
                   snd (batch_loop item fs1 (i + 1) ps []))"
    by (rule Cons.IH)
  finally have b: "batch_loop item fs i (p # ps) [] =
      (r # fst (batch_loop item fs1 (i + 1) ps []), snd (batch_loop item fs1 (i + 1) ps []))"
    by simp
  show ?case unfolding a b by simp
qed

lemma batch_loop_Cons:
  "batch_loop item fs i (p # ps) [] =
     (fst (item fs i p) # fst (batch_loop item (snd (item fs i p)) (i + 1) ps []),
      snd (batch_loop item (snd (item fs i p)) (i + 1) ps []))"
  using batch_loop_acc [of item "snd (item fs i p)" "i + 1" ps "[fst (item fs i p)]"]
  by (cases "item fs i p") simp

lemma batch_loop_length: "length (fst (batch_loop item fs i ps [])) = length ps"
proof (induction ps arbitrary: fs i)
  case Nil
  show ?case by simp
next
  case (Cons p ps)
  obtain r fs1 where it: "item fs i p = (r, fs1)" by (cases "item fs i p")
  show ?case using Cons.IH [of fs1 "i + 1"] by (simp add: batch_loop_Cons it del: batch_loop.simps(2))
qed

lemma batch_loop_nth:
  "k < length ps \<Longrightarrow>
   fst (batch_loop item fs i ps []) ! k =
     fst (item (snd (batch_loop item fs i (take k ps) [])) (i + k) (ps ! k))"
proof (induction ps arbitrary: fs i k)
  case Nil
  then show ?case by simp
next
  case (Cons p ps)
  obtain r fs1 where it: "item fs i p = (r, fs1)" by (cases "item fs i p")
  show ?case
  proof (cases k)
    case 0
    then show ?thesis using it by (simp add: batch_loop_Cons del: batch_loop.simps(2))
  next
    case (Suc j)
    with Cons.prems have j: "j < length ps" by simp
    have "fst (batch_loop item fs i (p # ps) []) ! k = fst (batch_loop item fs1 (i + 1) ps []) ! j"
      using Suc by (simp add: batch_loop_Cons it del: batch_loop.simps(2))
    also have "\<dots> = fst (item (snd (batch_loop item fs1 (i + 1) (take j ps) [])) (i + 1 + j) (ps ! j))"
      by (rule Cons.IH [OF j])
    also have "snd (batch_loop item fs1 (i + 1) (take j ps) [])
                 = snd (batch_loop item fs i (take k (p # ps)) [])"
      using Suc by (simp add: batch_loop_Cons it del: batch_loop.simps(2))
    finally show ?thesis using Suc by simp
  qed
qed

text \<open>
  The loop. When the closing progress notification returns (as it does when no progress
  callback is given), \<^verbatim>\<open>compress_multiple_images\<close> returns a list as long as the list
  of input paths, and its entry \<open>k\<close> is the dictionary that the loop body produces for
  input \<open>k\<close>, run in the file system left by the inputs before it: the result of
  \<^verbatim>\<open>compress_image\<close>, failed or not, or the error dictionary of the \<^verbatim>\<open>except\<close>
  branch. Every input is processed, whatever happened to the ones before it.
\<close>

theorem batch_results_in_order:
  assumes "notify progress_callback [PStr (''Compresi'' @ o_acute @ ''n completada''), PInt 100] = None"
  shows "\<exists>results.
           fst (compress_multiple_images env fs image_paths output_dir output_format quality
                  new_size maintain_aspect progress_callback image_callback) = Inr results \<and>
           length results = length image_paths \<and>
           (\<forall>k. k < length image_paths \<longrightarrow>
              results ! k =
                fst (process_item env output_dir output_format quality new_size maintain_aspect
                       progress_callback image_callback (length image_paths)
                       (snd (batch_loop
                               (process_item env output_dir output_format quality new_size
                                  maintain_aspect progress_callback image_callback
                                  (length image_paths))
                               fs 0 (take k image_paths) []))
                       k (image_paths ! k)))"
proof -
  let ?item = "process_item env output_dir output_format quality new_size maintain_aspect
                 progress_callback image_callback (length image_paths)"
  let ?l = "batch_loop ?item fs 0 image_paths []"
  have "fst (compress_multiple_images env fs image_paths output_dir output_format quality
               new_size maintain_aspect progress_callback image_callback) = Inr (fst ?l)"
    using assms by (cases ?l) (simp add: compress_multiple_images_def Let_def)
  moreover have "length (fst ?l) = length image_paths"
    by (rule batch_loop_length)
  moreover have "\<forall>k. k < length image_paths \<longrightarrow>
      fst ?l ! k = fst (?item (snd (batch_loop ?item fs 0 (take k image_paths) [])) k (image_paths ! k))"
    using batch_loop_nth [of _ image_paths ?item fs 0] by simp
  ultimately show ?thesis by blast
qed

lemma process_item_plain:
  "process_item env output_dir output_format quality new_size maintain_aspect None None
     total_images fs i input_path =
   compress_image env fs input_path
     (join output_dir (fst (splitext (basename input_path)) @ output_format))
     quality new_size maintain_aspect (Some (individual_progress None i total_images))"
  by (simp add: process_item_def notify_def Let_def split: prod.splits)

text \<open>
  The closing notification is outside every \<^verbatim>\<open>try\<close>: if the caller's callback raises
  there, the exception leaves \<^verbatim>\<open>compress_multiple_images\<close>.
\<close>

lemma closing_notification_raises:
  assumes "notify progress_callback [PStr (''Compresi'' @ o_acute @ ''n completada''), PInt 100] = Some e"
  shows "fst (compress_multiple_images env fs image_paths output_dir output_format quality
                new_size maintain_aspect progress_callback image_callback) = Inl e"
  using assms
  by (cases "batch_loop
               (process_item env output_dir output_format quality new_size maintain_aspect
                  progress_callback image_callback (length image_paths))
               fs 0 image_paths []")
     (simp add: compress_multiple_images_def Let_def)

lemma batch_sample:
  "fst (compress_multiple_images plain_runtime [''in.png'' \<mapsto> sample_file]
          [''missing.png'', ''in.png''] ''out'' ''.jpg'' 85 None True None None) =
     Inr [[(''success'', PBool False),
           (''error'', PStr ''No such file or directory: missing.png''),
           (''message'', PStr (cross_mark @ '' Error: No such file or directory: missing.png''))],
          [(''success'', PBool True),
           (''original_size'', PInt 5000000),
           (''compressed_size'', PInt 1000000),
           (''compression_ratio'', PFloat 80),
           (''original_dimensions'', PTuple [PInt 2000, PInt 1500]),
           (''final_dimensions'', PTuple [PInt 2000, PInt 1500]),
           (''format'', PStr ''JPG''),
           (''output_path'', PStr ''out/in.jpg''),
           (''fallback'', PBool False),
           (''message'', PStr (check_mark @ '' Guardado como .JPG''))]]"
  by (simp add: compress_multiple_images_def process_item_def individual_progress_def
        compress_defs save_defs error_result_def path_defs case_defs)

theorem batch_results_in_order_witness:
  "notify None [PStr (''Compresi'' @ o_acute @ ''n completada''), PInt 100] = None \<and>
   (\<exists>results.
      fst (compress_multiple_images plain_runtime [''in.png'' \<mapsto> sample_file]
             [''missing.png'', ''in.png''] ''out'' ''.jpg'' 85 None True None None) = Inr results \<and>
      length results = 2 \<and> \<not> is_success (results ! 0) \<and> is_success (results ! 1))"
proof -
  have h: "notify None [PStr (''Compresi'' @ o_acute @ ''n completada''), PInt 100] = None"
    by (simp add: notify_def)
  show ?thesis
    using h batch_results_in_order
              [OF h, where env = plain_runtime and fs = "[''in.png'' \<mapsto> sample_file]"
                 and image_paths = "[''missing.png'', ''in.png'']" and output_dir = "''out''"
                 and output_format = "''.jpg''" and quality = 85 and new_size = None
                 and maintain_aspect = True and image_callback = None]
    by (simp add: batch_sample is_success_def)
qed

text \<open>
  A progress callback that raises inside the loop is caught by the \<^verbatim>\<open>except\<close> branch
  of that round and recorded as the result of that input.
\<close>

lemma loop_notification_is_caught:
  assumes "notify progress_callback
             [PStr (''Procesando '' @ str_nat (i + 1) @ ''/'' @ str_nat total_images @ '': ''
                    @ fst (splitext (basename input_path))),
              PFloat (real i / real total_images * 100)] = Some e"
    and "0 < total_images"
  shows "process_item env output_dir output_format quality new_size maintain_aspect
           progress_callback image_callback total_images fs i input_path =
         (item_error input_path e, fs)"
  using assms by (simp add: process_item_def Let_def)

text \<open>
  C3. A batch of one readable image, run with a progress callback that raises on the
  closing notification: the image is compressed and written to \<^verbatim>\<open>out/in.jpg\<close>, and
  then the call raises the callback's exception. No result list is returned, of any
  length.
\<close>

theorem closing_callback_loses_results:
  "compress_multiple_images plain_runtime [''in.png'' \<mapsto> sample_file]
     [''in.png''] ''out'' ''.jpg'' 85 None True (Some closing_raises) None =
     (Inl ''main thread is not in main loop'',
      [''in.png'' \<mapsto> sample_file,
       ''out/in.jpg'' \<mapsto>
         File ''JPEG'' 1000000
           \<lparr>mode = ''RGB'', imsize = (2000, 1500),
            pixels = Pasted (Solid (255, 255, 255)) (Decoded ''in.png'')
                       (Some (LastBand (Decoded ''in.png'')))\<rparr>])"
  by (simp add: compress_multiple_images_def process_item_def individual_progress_def
        closing_raises_def compress_defs save_defs error_result_def path_defs case_defs)

end
